theory Spec2Isabelle
  imports Complex_Main "HOL-Library.Word"
begin

section \<open>Motion detection for the scout device (scout_arduino/motion_detect.h)\<close>

text \<open>
  A shallow embedding of the class \<open>MotionDetector\<close>. Conventions:
  \<^item> \<open>uint8_t\<close>, \<open>uint16_t\<close>, \<open>uint32_t\<close> and \<open>size_t\<close> (32 bits on the ESP32) are words,
    so every store into such a variable truncates as the C++ does;
  \<^item> \<open>float\<close> is modelled by \<open>real\<close>: comparisons and arithmetic are exact, rounding and
    NaN are not represented;
  \<^item> a null pointer is \<open>None\<close>;
  \<^item> the clock \<open>millis()\<close> and the allocator \<open>heap_caps_malloc\<close> are external: what they
    return during one call of \<open>detect\<close> is given by the record \<open>Env\<close>;
  \<^item> an integer division by zero and a read or write outside a buffer are the error
    values of the result type; every other path returns the result and the new state;
  \<^item> the lines written to \<open>Serial\<close> do not influence control flow and are left out.
\<close>

type_synonym u8 = "8 word"
type_synonym u16 = "16 word"
type_synonym u32 = "32 word"

datatype error = DivisionByZero | OutOfBounds

text \<open>The pixel formats of \<open>esp_camera.h\<close> (a header of the camera driver).\<close>

datatype pixformat_t =
    PIXFORMAT_RGB565 | PIXFORMAT_YUV422 | PIXFORMAT_YUV420 | PIXFORMAT_GRAYSCALE
  | PIXFORMAT_JPEG | PIXFORMAT_RGB888 | PIXFORMAT_RAW | PIXFORMAT_RGB444 | PIXFORMAT_RGB555

text \<open>
  The frame descriptor \<open>camera_fb_t\<close>: \<open>buf\<close> is the pixel buffer (\<open>None\<close> when the
  pointer is null), \<open>len\<close> the byte length the driver reports. Width and height are read
  into \<open>uint16_t\<close> variables by \<open>detect\<close>.
\<close>

record camera_fb_t =
  buf :: "u8 list option"
  len :: u32
  width :: u16
  height :: u16
  format :: pixformat_t

record MotionConfig =
  threshold :: u8
  minSizePercent :: real
  maxSizePercent :: real
  blockSize :: u16
  cooldownMs :: u16

text \<open>
  \<open>MotionResult\<close>; the fields \<open>x\<close>, \<open>y\<close>, \<open>width\<close>, \<open>height\<close> of the source are
  \<open>res_x\<close>, \<open>res_y\<close>, \<open>res_width\<close>, \<open>res_height\<close> here.
\<close>

record MotionResult =
  detected :: bool
  sizeFiltered :: bool
  res_x :: u16
  res_y :: u16
  res_width :: u16
  res_height :: u16
  sizePercent :: real
  changedBlocks :: u32
  totalBlocks :: u32
  confidence :: real

text \<open>
  The state of a detector: its private members, and the three \<open>static\<close> locals of
  \<open>detectFromJpegSize\<close> (\<open>prevJpegSize\<close>, \<open>jpegSizeHistory[5]\<close>, \<open>historyIdx\<close>), which
  live as long as the program does.
\<close>

record MotionDetector =
  config :: MotionConfig
  prevFrame :: "u8 list option"
  prevWidth :: u16
  prevHeight :: u16
  lastDetectionTime :: u32
  prevJpegSize :: u32
  jpegSizeHistory :: "u32 list"
  historyIdx :: nat

text \<open>
  What the environment answers during one call of \<open>detect\<close>: the value of \<open>millis()\<close>
  at the cooldown check, its value when a detection is accepted, and whether the
  allocation from PSRAM and the one from the general heap succeed.
\<close>

record Env =
  millis_check :: u32
  millis_accept :: u32
  spiram_ok :: bool
  heap_ok :: bool

subsection \<open>Construction, configuration, reset\<close>

definition MotionDetector_new :: MotionDetector where
  "MotionDetector_new =
     \<lparr>config = \<lparr>threshold = 25, minSizePercent = 1, maxSizePercent = 30,
                blockSize = 16, cooldownMs = 2000\<rparr>,
      prevFrame = None, prevWidth = 0, prevHeight = 0, lastDetectionTime = 0,
      prevJpegSize = 0, jpegSizeHistory = [0, 0, 0, 0, 0], historyIdx = 0\<rparr>"

definition setConfig :: "MotionConfig \<Rightarrow> MotionDetector \<Rightarrow> MotionDetector" where
  "setConfig cfg s = s\<lparr>config := cfg\<rparr>"

definition getConfig :: "MotionDetector \<Rightarrow> MotionConfig" where
  "getConfig s = config s"

definition reset :: "MotionDetector \<Rightarrow> MotionDetector" where
  "reset s = s\<lparr>prevFrame := None, prevWidth := 0, prevHeight := 0, lastDetectionTime := 0\<rparr>"

subsection \<open>The previous-frame buffer\<close>

text \<open>
  \<open>allocatePrevFrame\<close>: the old buffer is freed, PSRAM is tried first, then the general
  heap. The fresh buffer has \<open>width * height\<close> bytes; \<open>detect\<close> overwrites all of them
  before any is read, so its content is written as zeros.
\<close>

definition allocatePrevFrame :: "Env \<Rightarrow> u16 \<Rightarrow> u16 \<Rightarrow> MotionDetector \<Rightarrow> MotionDetector" where
  "allocatePrevFrame env w h s =
     (if spiram_ok env \<or> heap_ok env
      then s\<lparr>prevFrame := Some (replicate (unat w * unat h) 0), prevWidth := w, prevHeight := h\<rparr>
      else s\<lparr>prevFrame := None, prevWidth := 0, prevHeight := 0\<rparr>)"

definition memcpy :: "u8 list \<Rightarrow> u8 list \<Rightarrow> nat \<Rightarrow> error + u8 list" where
  "memcpy dst src n =
     (if n \<le> length src \<and> n \<le> length dst then Inr (take n src @ drop n dst)
      else Inl OutOfBounds)"

subsection \<open>Loops that can fail\<close>

text \<open>A \<open>for\<close> loop over the values \<open>xs\<close> whose body can fail: the first error ends it.\<close>

fun foldE :: "('a \<Rightarrow> 's \<Rightarrow> error + 's) \<Rightarrow> 'a list \<Rightarrow> 's \<Rightarrow> error + 's" where
  "foldE f [] s = Inr s"
| "foldE f (v # vs) s = (case f v s of Inl e \<Rightarrow> Inl e | Inr s' \<Rightarrow> foldE f vs s')"

definition read_at :: "'a list \<Rightarrow> nat \<Rightarrow> error + 'a" where
  "read_at xs i = (if i < length xs then Inr (xs ! i) else Inl OutOfBounds)"

subsection \<open>The block comparison (detect, lines 110 to 142)\<close>

text \<open>
  The index of pixel \<open>(px, py)\<close> of block \<open>(bx, by)\<close>. Inside the loops
  \<open>by * blockSize + py < height\<close> and \<open>bx * blockSize + px < width\<close>, so the value is below
  \<open>width * height < 2 ^ 32\<close> and the \<open>uint32_t\<close> holds it exactly.
\<close>

definition pixel_index :: "nat \<Rightarrow> nat \<Rightarrow> nat \<Rightarrow> nat \<Rightarrow> nat \<Rightarrow> nat \<Rightarrow> nat" where
  "pixel_index bs w bx by px py = (by * bs + py) * w + (bx * bs + px)"

definition abs_diff :: "u8 \<Rightarrow> u8 \<Rightarrow> nat" where
  "abs_diff a b = nat \<bar>uint a - uint b\<bar>"

definition pixel_step ::
  "u8 list \<Rightarrow> u8 list \<Rightarrow> nat \<Rightarrow> nat \<Rightarrow> nat \<Rightarrow> nat \<Rightarrow> nat \<Rightarrow> nat \<Rightarrow> u32 \<Rightarrow> error + u32" where
  "pixel_step cur prev bs w bx by py px blockDiff =
     (case read_at cur (pixel_index bs w bx by px py) of
        Inl e \<Rightarrow> Inl e
      | Inr a \<Rightarrow>
          (case read_at prev (pixel_index bs w bx by px py) of
             Inl e \<Rightarrow> Inl e
           | Inr b \<Rightarrow> Inr (blockDiff + of_nat (abs_diff a b))))"

definition block_diff ::
  "u8 list \<Rightarrow> u8 list \<Rightarrow> nat \<Rightarrow> nat \<Rightarrow> nat \<Rightarrow> nat \<Rightarrow> error + u32" where
  "block_diff cur prev bs w bx by =
     foldE (\<lambda>py. foldE (pixel_step cur prev bs w bx by py) [0..<bs]) [0..<bs] 0"

text \<open>
  \<open>uint16_t pixelsInBlock = blockSize * blockSize\<close> keeps the low 16 bits of the product;
  \<open>uint8_t avgDiff = blockDiff / pixelsInBlock\<close> keeps the low 8 bits of the quotient.
\<close>

definition block_avg ::
  "MotionConfig \<Rightarrow> u8 list \<Rightarrow> u8 list \<Rightarrow> nat \<Rightarrow> nat \<Rightarrow> nat \<Rightarrow> error + u8" where
  "block_avg cfg cur prev w bx by =
     (let pixelsInBlock = blockSize cfg * blockSize cfg in
      case block_diff cur prev (unat (blockSize cfg)) w bx by of
        Inl e \<Rightarrow> Inl e
      | Inr blockDiff \<Rightarrow>
          if pixelsInBlock = 0 then Inl DivisionByZero
          else Inr (ucast (blockDiff div ucast pixelsInBlock)))"

record scan =
  sc_changed :: u32
  sc_minX :: u16
  sc_minY :: u16
  sc_maxX :: u16
  sc_maxY :: u16

definition mark_block :: "nat \<Rightarrow> nat \<Rightarrow> scan \<Rightarrow> scan" where
  "mark_block bx by sc =
     \<lparr>sc_changed = sc_changed sc + 1,
      sc_minX = (if of_nat bx < sc_minX sc then of_nat bx else sc_minX sc),
      sc_minY = (if of_nat by < sc_minY sc then of_nat by else sc_minY sc),
      sc_maxX = (if of_nat bx > sc_maxX sc then of_nat bx else sc_maxX sc),
      sc_maxY = (if of_nat by > sc_maxY sc then of_nat by else sc_maxY sc)\<rparr>"

definition block_step ::
  "MotionConfig \<Rightarrow> u8 list \<Rightarrow> u8 list \<Rightarrow> nat \<Rightarrow> nat \<Rightarrow> nat \<Rightarrow> scan \<Rightarrow> error + scan" where
  "block_step cfg cur prev w by bx sc =
     (case block_avg cfg cur prev w bx by of
        Inl e \<Rightarrow> Inl e
      | Inr avgDiff \<Rightarrow> Inr (if avgDiff > threshold cfg then mark_block bx by sc else sc))"

definition scan_init :: "u16 \<Rightarrow> u16 \<Rightarrow> scan" where
  "scan_init blocksX blocksY =
     \<lparr>sc_changed = 0, sc_minX = blocksX, sc_minY = blocksY, sc_maxX = 0, sc_maxY = 0\<rparr>"

definition scan_blocks ::
  "MotionConfig \<Rightarrow> u8 list \<Rightarrow> u8 list \<Rightarrow> nat \<Rightarrow> u16 \<Rightarrow> u16 \<Rightarrow> error + scan" where
  "scan_blocks cfg cur prev w blocksX blocksY =
     foldE (\<lambda>by. foldE (block_step cfg cur prev w by) [0..<unat blocksX])
       [0..<unat blocksY] (scan_init blocksX blocksY)"

subsection \<open>The result of a comparison (detect, lines 147 to 185)\<close>

definition no_detection :: MotionResult where
  "no_detection =
     \<lparr>detected = False, sizeFiltered = False, res_x = 0, res_y = 0, res_width = 0,
      res_height = 0, sizePercent = 0, changedBlocks = 0, totalBlocks = 0, confidence = 0\<rparr>"

text \<open>Lines 149 to 160: the flag, the box in pixels and its share of the frame area.\<close>

definition bounding_box :: "MotionConfig \<Rightarrow> u16 \<Rightarrow> u16 \<Rightarrow> scan \<Rightarrow> MotionResult \<Rightarrow> MotionResult" where
  "bounding_box cfg w h sc r =
     (let bw = (sc_maxX sc - sc_minX sc + 1) * blockSize cfg;
          bh = (sc_maxY sc - sc_minY sc + 1) * blockSize cfg;
          totalArea = real (unat w) * real (unat h);
          motionArea = real (unat bw) * real (unat bh)
      in r\<lparr>detected := True,
           res_x := sc_minX sc * blockSize cfg,
           res_y := sc_minY sc * blockSize cfg,
           res_width := bw,
           res_height := bh,
           sizePercent := motionArea / totalArea * 100\<rparr>)"

text \<open>Lines 162 to 173: the size filter.\<close>

definition size_filter :: "MotionConfig \<Rightarrow> MotionResult \<Rightarrow> MotionResult" where
  "size_filter cfg r =
     (if sizePercent r < minSizePercent cfg then r\<lparr>sizeFiltered := True, detected := False\<rparr>
      else if sizePercent r > maxSizePercent cfg then r\<lparr>sizeFiltered := True, detected := False\<rparr>
      else r)"

text \<open>Lines 175 to 177: the confidence.\<close>

definition block_confidence :: "MotionResult \<Rightarrow> MotionResult" where
  "block_confidence r =
     (let blockRatio = real (unat (changedBlocks r)) / real (unat (totalBlocks r))
      in r\<lparr>confidence := min 1 (blockRatio * 5)\<rparr>)"

text \<open>Lines 179 to 184 and 248 to 252: an accepted detection restarts the cooldown.\<close>

definition accept :: "Env \<Rightarrow> MotionResult \<Rightarrow> MotionDetector \<Rightarrow> MotionDetector" where
  "accept env r s = (if detected r then s\<lparr>lastDetectionTime := millis_accept env\<rparr> else s)"

text \<open>
  Lines 110 to 187, entered with a previous frame \<open>p\<close> of the dimensions of the current
  frame, whose buffer is \<open>b\<close>.
\<close>

definition compare_frames ::
  "MotionDetector \<Rightarrow> Env \<Rightarrow> camera_fb_t \<Rightarrow> u8 list \<Rightarrow> u8 list \<Rightarrow> error + (MotionResult \<times> MotionDetector)" where
  "compare_frames s env f b p =
     (let cfg = config s; w = width f; h = height f in
      if blockSize cfg = 0 then Inl DivisionByZero
      else
        let blocksX = w div blockSize cfg;
            blocksY = h div blockSize cfg;
            r0 = no_detection\<lparr>totalBlocks := ucast blocksX * ucast blocksY\<rparr>
        in case scan_blocks cfg b p (unat w) blocksX blocksY of
             Inl e \<Rightarrow> Inl e
           | Inr sc \<Rightarrow>
               (case memcpy p b (unat w * unat h) of
                  Inl e \<Rightarrow> Inl e
                | Inr p' \<Rightarrow>
                    let s1 = s\<lparr>prevFrame := Some p'\<rparr>;
                        r1 = r0\<lparr>changedBlocks := sc_changed sc\<rparr>
                    in if sc_changed sc > 0
                       then
                         let r2 = block_confidence (size_filter cfg (bounding_box cfg w h sc r1))
                         in Inr (r2, accept env r2 s1)
                       else Inr (r1, s1)))"

text \<open>Lines 101 to 108: the first frame, or a frame of new dimensions, is only stored.\<close>

definition first_frame ::
  "MotionDetector \<Rightarrow> Env \<Rightarrow> camera_fb_t \<Rightarrow> u8 list \<Rightarrow> error + (MotionResult \<times> MotionDetector)" where
  "first_frame s env f b =
     (let w = width f; h = height f; frameSize = unat w * unat h;
          s1 = allocatePrevFrame env w h s
      in case prevFrame s1 of
           None \<Rightarrow> Inr (no_detection, s1)
         | Some p \<Rightarrow>
             (case memcpy p b frameSize of
                Inl e \<Rightarrow> Inl e
              | Inr p' \<Rightarrow> Inr (no_detection, s1\<lparr>prevFrame := Some p'\<rparr>)))"

text \<open>Lines 97 to 187: a grayscale frame with the buffer \<open>b\<close>.\<close>

definition detect_grayscale ::
  "MotionDetector \<Rightarrow> Env \<Rightarrow> camera_fb_t \<Rightarrow> u8 list \<Rightarrow> error + (MotionResult \<times> MotionDetector)" where
  "detect_grayscale s env f b =
     (case prevFrame s of
        None \<Rightarrow> first_frame s env f b
      | Some p \<Rightarrow>
          if prevWidth s \<noteq> width f \<or> prevHeight s \<noteq> height f then first_frame s env f b
          else compare_frames s env f b p)"

subsection \<open>The encoded path (detectFromJpegSize)\<close>

text \<open>Lines 205 to 213: the sum and the number of the non-zero entries of the ring.\<close>

definition history_step :: "u32 list \<Rightarrow> nat \<Rightarrow> u32 \<times> nat \<Rightarrow> error + (u32 \<times> nat)" where
  "history_step hist i acc =
     (case read_at hist i of
        Inl e \<Rightarrow> Inl e
      | Inr v \<Rightarrow> Inr (if v > 0 then (fst acc + v, snd acc + 1) else acc))"

definition history_stats :: "u32 list \<Rightarrow> error + (u32 \<times> nat)" where
  "history_stats hist = foldE (history_step hist) [0..<5] (0, 0)"

text \<open>Line 214: the average, an integer division of \<open>size_t\<close> values.\<close>

definition average_size :: "u32 list \<Rightarrow> error + (u32 \<times> nat)" where
  "average_size hist =
     (case history_stats hist of
        Inl e \<Rightarrow> Inl e
      | Inr (sizeSum, validCount) \<Rightarrow>
          Inr (if validCount > 0 then sizeSum div of_nat validCount else sizeSum, validCount))"

text \<open>Line 223: the deviation of the frame's length from the average, in percent.\<close>

definition size_deviation :: "u32 \<Rightarrow> u32 \<Rightarrow> real" where
  "size_deviation n avgSize = \<bar>real (unat n) - real (unat avgSize)\<bar> / real (unat avgSize) * 100"

text \<open>Lines 238 to 246: the filter of the encoded path, applied inside the branch \<open>sizeDiff > 10\<close>.\<close>

definition jpeg_size_filter :: "real \<Rightarrow> MotionResult \<Rightarrow> MotionResult" where
  "jpeg_size_filter sizeDiff r =
     (if sizeDiff < 3 then r\<lparr>sizeFiltered := True, detected := False\<rparr>
      else if sizeDiff > 50 then r\<lparr>sizeFiltered := True, detected := False\<rparr>
      else r)"

text \<open>
  Lines 194 to 257. The write into the ring is at \<open>historyIdx\<close>, which the code keeps
  below 5; an index outside the array is an error of the model.
\<close>

definition detectFromJpegSize ::
  "MotionDetector \<Rightarrow> Env \<Rightarrow> camera_fb_t \<Rightarrow> error + (MotionResult \<times> MotionDetector)" where
  "detectFromJpegSize s env f =
     (if \<not> historyIdx s < length (jpegSizeHistory s) then Inl OutOfBounds
      else
        let hist = (jpegSizeHistory s)[historyIdx s := len f];
            s1 = s\<lparr>jpegSizeHistory := hist, historyIdx := (historyIdx s + 1) mod 5\<rparr>
        in case average_size hist of
             Inl e \<Rightarrow> Inl e
           | Inr (avgSize, validCount) \<Rightarrow>
               if prevJpegSize s = 0 \<or> validCount < 3
               then Inr (no_detection, s1\<lparr>prevJpegSize := len f\<rparr>)
               else
                 let sizeDiff = size_deviation (len f) avgSize
                 in if sizeDiff > 10
                    then
                      let r1 = no_detection
                                 \<lparr>detected := True,
                                  res_x := width f div 4,
                                  res_y := height f div 4,
                                  res_width := width f div 2,
                                  res_height := height f div 2,
                                  sizePercent := sizeDiff,
                                  confidence := min 1 (sizeDiff / 30)\<rparr>;
                          r2 = jpeg_size_filter sizeDiff r1
                      in Inr (r2, (accept env r2 s1)\<lparr>prevJpegSize := len f\<rparr>)
                    else Inr (no_detection, s1\<lparr>prevJpegSize := len f\<rparr>))"

subsection \<open>detect\<close>

definition cooldown_active :: "MotionDetector \<Rightarrow> Env \<Rightarrow> bool" where
  "cooldown_active s env \<longleftrightarrow>
     millis_check env - lastDetectionTime s < ucast (cooldownMs (config s))"

definition detect ::
  "MotionDetector \<Rightarrow> Env \<Rightarrow> camera_fb_t option \<Rightarrow> error + (MotionResult \<times> MotionDetector)" where
  "detect s env frame =
     (case frame of
        None \<Rightarrow> Inr (no_detection, s)
      | Some f \<Rightarrow>
          (case buf f of
             None \<Rightarrow> Inr (no_detection, s)
           | Some b \<Rightarrow>
               if len f = 0 then Inr (no_detection, s)
               else if cooldown_active s env then Inr (no_detection, s)
               else if format f = PIXFORMAT_JPEG then detectFromJpegSize s env f
               else if format f \<noteq> PIXFORMAT_GRAYSCALE then Inr (no_detection, s)
               else detect_grayscale s env f b))"

section \<open>Inputs and predicates of the properties\<close>

text \<open>
  The two ways a call is turned away before any work: an invalid frame (a null frame, a
  null buffer or a zero length, line 74) and a pixel format that is neither grayscale nor
  JPEG (line 92).
\<close>

definition invalid_frame :: "camera_fb_t option \<Rightarrow> bool" where
  "invalid_frame frame = (case frame of None \<Rightarrow> True | Some f \<Rightarrow> buf f = None \<or> len f = 0)"

definition unsupported_format :: "camera_fb_t option \<Rightarrow> bool" where
  "unsupported_format frame =
     (case frame of None \<Rightarrow> False
      | Some f \<Rightarrow> format f \<noteq> PIXFORMAT_GRAYSCALE \<and> format f \<noteq> PIXFORMAT_JPEG)"

text \<open>Concrete frames, clock readings and detector states used to instantiate the theorems.\<close>

definition jpeg_frame :: "u32 \<Rightarrow> camera_fb_t" where
  "jpeg_frame n = \<lparr>buf = Some [255, 216], len = n, width = 64, height = 64, format = PIXFORMAT_JPEG\<rparr>"

definition gray_frame :: "u16 \<Rightarrow> u16 \<Rightarrow> u8 list \<Rightarrow> camera_fb_t" where
  "gray_frame w h b = \<lparr>buf = Some b, len = of_nat (length b), width = w, height = h, format = PIXFORMAT_GRAYSCALE\<rparr>"

definition env_at :: "u32 \<Rightarrow> bool \<Rightarrow> Env" where
  "env_at t ok = \<lparr>millis_check = t, millis_accept = t + 1, spiram_ok = False, heap_ok = ok\<rparr>"

definition warm_detector :: MotionDetector where
  "warm_detector = MotionDetector_new\<lparr>prevJpegSize := 1000, jpegSizeHistory := [1000, 1000, 1000, 1000, 1000]\<rparr>"

definition quiet_detector :: MotionDetector where
  "quiet_detector = MotionDetector_new\<lparr>prevJpegSize := 199, jpegSizeHistory := [199, 199, 199, 199, 0], historyIdx := 4\<rparr>"

text \<open>A sequence of calls of \<open>detect\<close>, keeping the state: \<open>foldE detect_next calls s\<close>.\<close>

definition detect_next :: "Env \<times> camera_fb_t option \<Rightarrow> MotionDetector \<Rightarrow> error + MotionDetector" where
  "detect_next c s = (case detect s (fst c) (snd c) of Inl e \<Rightarrow> Inl e | Inr (r, s') \<Rightarrow> Inr s')"




definition gray_zero :: camera_fb_t where
  "gray_zero = gray_frame 4 4 [0, 0, 0, 0, 0, 0, 0, 0, 0, 0, 0, 0, 0, 0, 0, 0]"

definition rgb_frame :: camera_fb_t where
  "rgb_frame = \<lparr>buf = Some [1, 2], len = 2, width = 1, height = 1, format = PIXFORMAT_RGB565\<rparr>"

definition baseline_detector :: MotionDetector where
  "baseline_detector =
     MotionDetector_new\<lparr>prevFrame := Some [7, 7, 7, 7], prevWidth := 2, prevHeight := 2,
                          lastDetectionTime := 9000\<rparr>"

text \<open>
  The sum of the absolute pixel differences over one block, and the mean absolute
  difference of the specification: that sum divided by the number of pixels of the block.
\<close>

definition block_sum :: "u8 list \<Rightarrow> u8 list \<Rightarrow> nat \<Rightarrow> nat \<Rightarrow> nat \<Rightarrow> nat \<Rightarrow> nat" where
  "block_sum cur prev bs w bx by =
     (\<Sum>py<bs. \<Sum>px<bs. abs_diff (cur ! pixel_index bs w bx by px py)
                                    (prev ! pixel_index bs w bx by px py))"

definition mean_abs_diff :: "u8 list \<Rightarrow> u8 list \<Rightarrow> nat \<Rightarrow> nat \<Rightarrow> nat \<Rightarrow> nat \<Rightarrow> real" where
  "mean_abs_diff cur prev bs w bx by = real (block_sum cur prev bs w bx by) / real (bs * bs)"

text \<open>
  The criterion of the code for a changed block, in the words of the mean: the integer
  part of the mean exceeds the threshold.
\<close>

definition block_changed :: "MotionConfig \<Rightarrow> u8 list \<Rightarrow> u8 list \<Rightarrow> nat \<Rightarrow> nat \<Rightarrow> nat \<Rightarrow> bool" where
  "block_changed cfg cur prev w bx by \<longleftrightarrow>
     int (unat (threshold cfg)) < \<lfloor>mean_abs_diff cur prev (unat (blockSize cfg)) w bx by\<rfloor>"

text \<open>
  The measured values of a comparison whose scan is \<open>sc\<close>: lines 149 to 160 and 175 to
  177 applied to the counts, without the size filter.
\<close>

definition measured :: "MotionConfig \<Rightarrow> u16 \<Rightarrow> u16 \<Rightarrow> scan \<Rightarrow> MotionResult" where
  "measured cfg w h sc =
     block_confidence
       (bounding_box cfg w h sc
          (no_detection\<lparr>totalBlocks := ucast (w div blockSize cfg) * ucast (h div blockSize cfg),
                         changedBlocks := sc_changed sc\<rparr>))"

text \<open>Small grayscale inputs: a 4 by 4 frame compared in blocks of 2 by 2 pixels.\<close>

definition small_config :: MotionConfig where
  "small_config = \<lparr>threshold = 25, minSizePercent = 1, maxSizePercent = 30, blockSize = 2, cooldownMs = 2000\<rparr>"

definition small_detector :: MotionDetector where
  "small_detector =
     MotionDetector_new\<lparr>config := small_config,
        prevFrame := Some [0, 0, 0, 0, 0, 0, 0, 0, 0, 0, 0, 0, 0, 0, 0, 0],
        prevWidth := 4, prevHeight := 4\<rparr>"

definition spot_frame :: camera_fb_t where
  "spot_frame = gray_frame 4 4 [26, 26, 0, 0, 26, 26, 0, 0, 0, 0, 0, 0, 0, 0, 0, 0]"

definition flood_frame :: camera_fb_t where
  "flood_frame = gray_frame 4 4 [100, 100, 100, 100, 100, 100, 100, 100,
                                 100, 100, 100, 100, 100, 100, 100, 100]"

text \<open>A detector configured with \<open>blockSize = 256\<close> that holds a 256 by 256 baseline.\<close>

definition wide_detector :: MotionDetector where
  "wide_detector =
     MotionDetector_new
       \<lparr>config := \<lparr>threshold = 25, minSizePercent = 1, maxSizePercent = 30,
                     blockSize = 256, cooldownMs = 2000\<rparr>,
        prevFrame := Some (replicate 65536 0), prevWidth := 256, prevHeight := 256\<rparr>"

text \<open>
  A detector configured with \<open>blockSize = 257\<close>, whose 16-bit pixel count is 513, that holds
  a 257 by 257 baseline of zeros; and one configured with \<open>blockSize = 0\<close>.
\<close>

definition odd_detector :: MotionDetector where
  "odd_detector =
     MotionDetector_new
       \<lparr>config := \<lparr>threshold = 25, minSizePercent = 1, maxSizePercent = 30,
                     blockSize = 257, cooldownMs = 2000\<rparr>,
        prevFrame := Some (replicate 66049 0), prevWidth := 257, prevHeight := 257\<rparr>"

definition stuck_detector :: MotionDetector where
  "stuck_detector =
     MotionDetector_new
       \<lparr>config := \<lparr>threshold = 25, minSizePercent = 1, maxSizePercent = 30,
                     blockSize = 0, cooldownMs = 2000\<rparr>,
        prevFrame := Some [0, 0, 0, 0, 0, 0, 0, 0, 0, 0, 0, 0, 0, 0, 0, 0],
        prevWidth := 4, prevHeight := 4\<rparr>"

text \<open>
  The 64 by 64 frames of the localized-change case: all zeros, and all zeros but the
  16 by 16 block \<open>(bx0, by0)\<close> of the grid, whose pixels are 100.
\<close>

definition zero_frame :: "u8 list" where
  "zero_frame = replicate 4096 0"

definition block_frame :: "nat \<Rightarrow> nat \<Rightarrow> u8 list" where
  "block_frame bx0 by0 =
     map (\<lambda>i. if i mod 64 div 16 = bx0 \<and> i div 64 div 16 = by0 then 100 else 0) [0..<4096]"

section \<open>Properties\<close>

subsection \<open>The gates and the cooldown\<close>

lemma upt5: "[0..<5] = [0, 1, 2, 3, 4]" by (simp add: upt_rec)

lemma detect_invalid: "invalid_frame frame \<Longrightarrow> detect s env frame = Inr (no_detection, s)"
  by (auto simp: invalid_frame_def detect_def split: option.splits)

lemma detect_unsupported: "unsupported_format frame \<Longrightarrow> detect s env frame = Inr (no_detection, s)"
  by (auto simp: unsupported_format_def detect_def split: option.splits)

lemma detect_cooldown: "cooldown_active s env \<Longrightarrow> detect s env frame = Inr (no_detection, s)"
  by (auto simp: detect_def split: option.splits)

lemma accept_time: "lastDetectionTime (accept env r s) = (if detected r then millis_accept env else lastDetectionTime s)"
  by (simp add: accept_def)

lemma jpeg_time:
  "detectFromJpegSize s env f = Inr (r, s') \<Longrightarrow>
   lastDetectionTime s' = (if detected r then millis_accept env else lastDetectionTime s)"
  unfolding detectFromJpegSize_def Let_def
  by (auto simp: accept_time no_detection_def split: if_splits sum.splits prod.splits)

lemma first_frame_time:
  "first_frame s env f b = Inr (r, s') \<Longrightarrow> r = no_detection \<and> lastDetectionTime s' = lastDetectionTime s"
  unfolding first_frame_def Let_def allocatePrevFrame_def
  by (auto split: if_splits sum.splits option.splits)

lemma compare_time:
  "compare_frames s env f b p = Inr (r, s') \<Longrightarrow>
   lastDetectionTime s' = (if detected r then millis_accept env else lastDetectionTime s)"
  unfolding compare_frames_def Let_def
  by (auto simp: accept_time no_detection_def split: if_splits sum.splits)

lemma detect_time:
  "detect s env frame = Inr (r, s') \<Longrightarrow>
   lastDetectionTime s' = (if detected r then millis_accept env else lastDetectionTime s)"
  unfolding detect_def detect_grayscale_def
  by (auto simp: no_detection_def dest: jpeg_time compare_time first_frame_time split: option.splits if_splits)

lemma jpeg_filtered_above_50:
  assumes "detectFromJpegSize s env f = Inr (r, s')" and "sizeFiltered r"
  shows "50 < sizePercent r"
  using assms unfolding detectFromJpegSize_def Let_def
  by (auto simp: no_detection_def jpeg_size_filter_def split: if_splits sum.splits prod.splits)

lemma jpeg_verdict_reset:
  "map_sum id fst (detectFromJpegSize (reset s) env f) = map_sum id fst (detectFromJpegSize s env f)"
  unfolding detectFromJpegSize_def Let_def reset_def
  by (auto split: sum.splits prod.splits)

lemmas eval_defs = detect_def MotionDetector_new_def env_at_def jpeg_frame_def gray_frame_def
  cooldown_active_def detectFromJpegSize_def history_stats_def history_step_def upt5 average_size_def size_deviation_def
  read_at_def Let_def jpeg_size_filter_def accept_def no_detection_def detect_next_def
  warm_detector_def quiet_detector_def reset_def setConfig_def

subsection \<open>Loops\<close>

lemma foldE_append:
  "foldE f (xs @ ys) s = (case foldE f xs s of Inl e \<Rightarrow> Inl e | Inr s' \<Rightarrow> foldE f ys s')"
  by (induction xs arbitrary: s) (auto split: sum.splits)

lemma foldE_pure:
  "(\<And>v t. v \<in> set vs \<Longrightarrow> f v t = Inr (g v t)) \<Longrightarrow> foldE f vs s = Inr (fold g vs s)"
  by (induction vs arbitrary: s) auto

lemma foldE_not_error:
  "(\<And>v t. v \<in> set vs \<Longrightarrow> f v t \<noteq> Inl e) \<Longrightarrow> foldE f vs s \<noteq> Inl e"
proof (induction vs arbitrary: s)
  case Nil
  then show ?case by simp
next
  case (Cons v vs)
  show ?case
  proof (cases "f v s")
    case (Inl e')
    with Cons.prems [of v s] show ?thesis by auto
  next
    case (Inr s')
    with Cons.IH [of s'] Cons.prems show ?thesis by auto
  qed
qed

lemma upt_first: "0 < n \<Longrightarrow> [0..<n] = 0 # [1..<n]"
  by (simp add: upt_rec)

lemma upt2: "[0..<2] = [0, 1]" by (simp add: upt_rec)

lemma upt4: "[0..<4] = [0, 1, 2, 3]" by (simp add: upt_rec)

lemma lessThan2: "{..<2::nat} = {0, 1}" by auto

subsection \<open>Pixel indices and block sums\<close>

lemma abs_diff_le: "abs_diff a b \<le> 255"
proof -
  have "uint a < 256" "uint b < 256" "0 \<le> uint a" "0 \<le> uint b"
    using uint_lt2p [of a] uint_lt2p [of b] by simp_all
  then show ?thesis unfolding abs_diff_def by linarith
qed

lemma in_grid_lt:
  assumes "b < n div bs" and "p < bs"
  shows "b * bs + p < (n::nat)"
proof -
  have "b * bs + p < (b + 1) * bs" using assms(2) by simp
  also have "\<dots> \<le> (n div bs) * bs" using assms(1) by (intro mult_le_mono1) simp
  also have "\<dots> \<le> n" by simp
  finally show ?thesis .
qed

lemma pixel_index_lt:
  assumes "bx < w div bs" and "by < h div bs" and "px < bs" and "py < bs"
  shows "pixel_index bs w bx by px py < w * h"
proof -
  have X: "bx * bs + px < w" using assms(1,3) by (rule in_grid_lt)
  have Y: "by * bs + py < h" using assms(2,4) by (rule in_grid_lt)
  have "pixel_index bs w bx by px py < (by * bs + py) * w + w"
    unfolding pixel_index_def using X by simp
  also have "\<dots> = (by * bs + py + 1) * w" by simp
  also have "\<dots> \<le> h * w" using Y by (intro mult_le_mono1) simp
  finally show ?thesis by (simp add: mult.commute)
qed

lemma row_loop:
  assumes "\<And>px. px < n \<Longrightarrow> pixel_index bs w bx by px py < length cur \<and> pixel_index bs w bx by px py < length prev"
  shows "foldE (pixel_step cur prev bs w bx by py) [0..<n] acc =
         Inr (acc + of_nat (\<Sum>px<n. abs_diff (cur ! pixel_index bs w bx by px py)
                                                (prev ! pixel_index bs w bx by px py)))"
  using assms
proof (induction n arbitrary: acc)
  case 0
  then show ?case by simp
next
  case (Suc n)
  then show ?case
    by (simp add: foldE_append pixel_step_def read_at_def algebra_simps)
qed

lemma block_loop:
  assumes "\<And>px py. px < bs \<Longrightarrow> py < m \<Longrightarrow>
     pixel_index bs w bx by px py < length cur \<and> pixel_index bs w bx by px py < length prev"
  shows "foldE (\<lambda>py. foldE (pixel_step cur prev bs w bx by py) [0..<bs]) [0..<m] acc =
         Inr (acc + of_nat (\<Sum>py<m. \<Sum>px<bs. abs_diff (cur ! pixel_index bs w bx by px py)
                                                          (prev ! pixel_index bs w bx by px py)))"
  using assms
proof (induction m arbitrary: acc)
  case 0
  then show ?case by simp
next
  case (Suc m)
  then show ?case
    by (simp add: foldE_append row_loop algebra_simps)
qed

lemma block_diff_sum:
  assumes "\<And>px py. px < bs \<Longrightarrow> py < bs \<Longrightarrow>
     pixel_index bs w bx by px py < length cur \<and> pixel_index bs w bx by px py < length prev"
  shows "block_diff cur prev bs w bx by = Inr (of_nat (block_sum cur prev bs w bx by))"
  unfolding block_diff_def block_sum_def using block_loop [of bs bs w bx "by" cur prev 0] assms
  by simp

lemma block_diff_in_grid:
  assumes "bx < w div bs" and "by < h div bs" and "w * h \<le> length cur" and "w * h \<le> length prev"
  shows "block_diff cur prev bs w bx by = Inr (of_nat (block_sum cur prev bs w bx by))"
proof (rule block_diff_sum)
  fix px py assume "px < bs" "py < bs"
  with assms(1,2) have "pixel_index bs w bx by px py < w * h" by (rule pixel_index_lt)
  with assms(3,4) show "pixel_index bs w bx by px py < length cur \<and> pixel_index bs w bx by px py < length prev"
    by simp
qed

lemma block_sum_le: "block_sum cur prev bs w bx by \<le> 255 * (bs * bs)"
proof -
  have "block_sum cur prev bs w bx by \<le> (\<Sum>py<bs. \<Sum>px<bs. 255)"
    unfolding block_sum_def by (intro sum_mono abs_diff_le)
  then show ?thesis by simp
qed

subsection \<open>The average of a block and the scan\<close>

lemma pixels_in_block_unat:
  fixes bs :: u16
  assumes "unat bs * unat bs < 65536"
  shows "unat (bs * bs) = unat bs * unat bs"
  using assms by (simp add: unat_word_ariths)

lemma block_avg_value:
  assumes grid: "bx < w div unat (blockSize cfg)" "by < h div unat (blockSize cfg)"
    and cur: "w * h \<le> length cur" and prev: "w * h \<le> length prev"
    and pos: "0 < unat (blockSize cfg)"
    and small: "unat (blockSize cfg) * unat (blockSize cfg) < 65536"
  shows "\<exists>a. block_avg cfg cur prev w bx by = Inr a \<and>
           unat a = block_sum cur prev (unat (blockSize cfg)) w bx by
                      div (unat (blockSize cfg) * unat (blockSize cfg))"
proof -
  let ?bs = "unat (blockSize cfg)"
  let ?S = "block_sum cur prev ?bs w bx by"
  let ?pib = "blockSize cfg * blockSize cfg"
  have pib: "unat ?pib = ?bs * ?bs" using small by (rule pixels_in_block_unat)
  have pib_pos: "0 < ?bs * ?bs" using pos by simp
  have pib_ne: "?pib \<noteq> 0" using pib pib_pos by (metis less_numeral_extra(3) unat_0)
  have S_le: "?S \<le> 255 * (?bs * ?bs)" by (rule block_sum_le)
  have S_lt: "?S < 2 ^ 32" using S_le small by simp
  have uS: "unat (of_nat ?S :: u32) = ?S" using S_lt by (simp add: unat_of_nat)
  have up: "unat (ucast ?pib :: u32) = ?bs * ?bs"
  proof -
    have "unat ?pib < 2 ^ 32" using pib small by simp
    then show ?thesis using pib by (simp add: unsigned_ucast_eq take_bit_nat_eq_self)
  qed
  have q: "unat ((of_nat ?S :: u32) div ucast ?pib) = ?S div (?bs * ?bs)"
    by (simp add: unat_div uS up)
  have q_le: "?S div (?bs * ?bs) \<le> 255"
  proof -
    have "?S div (?bs * ?bs) \<le> (255 * (?bs * ?bs)) div (?bs * ?bs)"
      using S_le by (rule div_le_mono)
    also have "\<dots> = 255" using pib_pos by simp
    finally show ?thesis .
  qed
  have "unat (ucast ((of_nat ?S :: u32) div ucast ?pib) :: u8) = ?S div (?bs * ?bs)"
  proof -
    have "unat ((of_nat ?S :: u32) div ucast ?pib) < 2 ^ 8" using q q_le by simp
    then show ?thesis using q by (simp add: unsigned_ucast_eq take_bit_nat_eq_self)
  qed
  moreover have "block_avg cfg cur prev w bx by = Inr (ucast ((of_nat ?S :: u32) div ucast ?pib))"
    using block_diff_in_grid [OF grid cur prev] pib_ne by (simp add: block_avg_def Let_def)
  ultimately show ?thesis by blast
qed

lemma block_step_value:
  assumes grid: "bx < w div unat (blockSize cfg)" "by < h div unat (blockSize cfg)"
    and cur: "w * h \<le> length cur" and prev: "w * h \<le> length prev"
    and pos: "0 < unat (blockSize cfg)"
    and small: "unat (blockSize cfg) * unat (blockSize cfg) < 65536"
  shows "block_step cfg cur prev w by bx sc =
           Inr (if unat (threshold cfg) <
                     block_sum cur prev (unat (blockSize cfg)) w bx by
                       div (unat (blockSize cfg) * unat (blockSize cfg))
                then mark_block bx by sc else sc)"
proof -
  from block_avg_value [OF grid cur prev pos small]
  obtain a where a: "block_avg cfg cur prev w bx by = Inr a"
    and ua: "unat a = block_sum cur prev (unat (blockSize cfg)) w bx by
                      div (unat (blockSize cfg) * unat (blockSize cfg))"
    by blast
  show ?thesis using a ua by (simp add: block_step_def word_less_nat_alt)
qed

lemma block_changed_div:
  "block_changed cfg cur prev w bx by \<longleftrightarrow>
     unat (threshold cfg) < block_sum cur prev (unat (blockSize cfg)) w bx by
                              div (unat (blockSize cfg) * unat (blockSize cfg))"
  unfolding block_changed_def mean_abs_diff_def floor_divide_of_nat_eq
  by (rule of_nat_less_iff)

lemma sc_changed_mark: "sc_changed (mark_block bx by sc) = sc_changed sc + 1"
  by (simp add: mark_block_def)

lemma row_count:
  "sc_changed (fold (\<lambda>bx sc. if P bx then mark_block bx by sc else sc) xs sc) =
     sc_changed sc + of_nat (length (filter P xs))"
  by (induction xs arbitrary: sc) (simp_all add: sc_changed_mark)

lemma grid_count:
  "sc_changed (fold (\<lambda>by. fold (\<lambda>bx sc. if P bx by then mark_block bx by sc else sc) xs) ys sc) =
     sc_changed sc + of_nat (\<Sum>by\<leftarrow>ys. length (filter (\<lambda>bx. P bx by) xs))"
  by (induction ys arbitrary: sc) (simp_all add: row_count)

lemma filter_upt_card: "length (filter P [0..<n]) = card {i. i < n \<and> P i}"
proof -
  have "{i. i < n \<and> P ([0..<n] ! i)} = {i. i < n \<and> P i}" by auto
  then show ?thesis by (simp add: length_filter_conv_card)
qed

lemma grid_card:
  "(\<Sum>by\<leftarrow>[0..<m]. length (filter (\<lambda>bx. P bx by) [0..<n])) =
     card {(bx, by). bx < n \<and> by < m \<and> P bx by}"
proof -
  have "(\<Sum>by\<leftarrow>[0..<m]. length (filter (\<lambda>bx. P bx by) [0..<n])) =
        (\<Sum>by\<in>{..<m}. card {bx. bx < n \<and> P bx by})"
    by (simp add: interv_sum_list_conv_sum_set_nat filter_upt_card atLeast0LessThan)
  also have "\<dots> = card (SIGMA by:{..<m}. {bx. bx < n \<and> P bx by})"
    by (rule card_SigmaI [symmetric]) simp_all
  also have "\<dots> = card ((\<lambda>(by, bx). (bx, by)) ` (SIGMA by:{..<m}. {bx. bx < n \<and> P bx by}))"
    by (rule card_image [symmetric]) (auto simp: inj_on_def)
  also have "(\<lambda>(by, bx). (bx, by)) ` (SIGMA by:{..<m}. {bx. bx < n \<and> P bx by}) =
             {(bx, by). bx < n \<and> by < m \<and> P bx by}"
    by (auto simp: image_iff)
  finally show ?thesis .
qed

lemma grid_card_le: "card {(bx, by). bx < n \<and> by < m \<and> P bx by} \<le> n * m"
proof -
  have "{(bx, by). bx < n \<and> by < m \<and> P bx by} \<subseteq> {..<n} \<times> {..<m}" by auto
  then have "card {(bx, by). bx < n \<and> by < m \<and> P bx by} \<le> card ({..<n} \<times> {..<m})"
    by (intro card_mono) auto
  then show ?thesis by simp
qed

lemma scan_blocks_fold:
  assumes bx: "unat blocksX \<le> w div unat (blockSize cfg)"
    and "by": "unat blocksY \<le> h div unat (blockSize cfg)"
    and cur: "w * h \<le> length cur" and prev: "w * h \<le> length prev"
    and pos: "0 < unat (blockSize cfg)"
    and small: "unat (blockSize cfg) * unat (blockSize cfg) < 65536"
  shows "scan_blocks cfg cur prev w blocksX blocksY =
           Inr (fold (\<lambda>by. fold (\<lambda>bx sc. if block_changed cfg cur prev w bx by
                                           then mark_block bx by sc else sc) [0..<unat blocksX])
                  [0..<unat blocksY] (scan_init blocksX blocksY))"
  unfolding scan_blocks_def
proof (rule foldE_pure)
  fix v t assume "v \<in> set [0..<unat blocksY]"
  then have v: "v < h div unat (blockSize cfg)" using "by" by simp
  show "foldE (block_step cfg cur prev w v) [0..<unat blocksX] t =
        Inr (fold (\<lambda>bx sc. if block_changed cfg cur prev w bx v then mark_block bx v sc else sc)
               [0..<unat blocksX] t)"
  proof (rule foldE_pure)
    fix u t' assume "u \<in> set [0..<unat blocksX]"
    then have u: "u < w div unat (blockSize cfg)" using bx by simp
    show "block_step cfg cur prev w v u t' =
          Inr (if block_changed cfg cur prev w u v then mark_block u v t' else t')"
      using block_step_value [OF u v cur prev pos small] by (simp add: block_changed_div)
  qed
qed

lemma scan_blocks_count:
  assumes bx: "unat blocksX \<le> w div unat (blockSize cfg)"
    and "by": "unat blocksY \<le> h div unat (blockSize cfg)"
    and cur: "w * h \<le> length cur" and prev: "w * h \<le> length prev"
    and pos: "0 < unat (blockSize cfg)"
    and small: "unat (blockSize cfg) * unat (blockSize cfg) < 65536"
  shows "\<exists>sc. scan_blocks cfg cur prev w blocksX blocksY = Inr sc \<and>
           unat (sc_changed sc) =
             card {(bx, by). bx < unat blocksX \<and> by < unat blocksY \<and> block_changed cfg cur prev w bx by}"
proof -
  let ?n = "card {(bx, by). bx < unat blocksX \<and> by < unat blocksY \<and> block_changed cfg cur prev w bx by}"
  let ?sc = "fold (\<lambda>by. fold (\<lambda>bx sc. if block_changed cfg cur prev w bx by
                                           then mark_block bx by sc else sc) [0..<unat blocksX])
                  [0..<unat blocksY] (scan_init blocksX blocksY)"
  have "sc_changed ?sc = of_nat ?n"
    by (simp add: grid_count grid_card scan_init_def)
  moreover have "?n < 2 ^ 32"
  proof -
    have "?n \<le> unat blocksX * unat blocksY" by (rule grid_card_le)
    also have "\<dots> \<le> 65535 * 65535"
      using unsigned_less [of blocksX, where 'a = nat] unsigned_less [of blocksY, where 'a = nat]
      by (intro mult_le_mono) simp_all
    finally show ?thesis by simp
  qed
  ultimately have "unat (sc_changed ?sc) = ?n" by (simp add: unat_of_nat)
  with scan_blocks_fold [OF assms] show ?thesis by simp
qed

subsection \<open>Where a division by zero can arise\<close>

lemma read_at_error: "read_at xs i \<noteq> Inl DivisionByZero"
  by (simp add: read_at_def)

lemma pixel_step_error: "pixel_step cur prev bs w bx by py px acc \<noteq> Inl DivisionByZero"
  using read_at_error [of cur] read_at_error [of prev]
  by (auto simp: pixel_step_def split: sum.splits)

lemma block_diff_error: "block_diff cur prev bs w bx by \<noteq> Inl DivisionByZero"
  unfolding block_diff_def
  by (intro foldE_not_error pixel_step_error)

lemma block_avg_error:
  "blockSize cfg * blockSize cfg \<noteq> 0 \<Longrightarrow> block_avg cfg cur prev w bx by \<noteq> Inl DivisionByZero"
  using block_diff_error [of cur prev "unat (blockSize cfg)" w bx "by"]
  by (auto simp: block_avg_def Let_def split: sum.splits)

lemma scan_blocks_error:
  assumes "blockSize cfg * blockSize cfg \<noteq> 0"
  shows "scan_blocks cfg cur prev w blocksX blocksY \<noteq> Inl DivisionByZero"
  unfolding scan_blocks_def
proof (intro foldE_not_error)
  fix v t va ta
  show "block_step cfg cur prev w v va ta \<noteq> Inl DivisionByZero"
    using block_avg_error [OF assms, of cur prev w va v]
    by (auto simp: block_step_def split: sum.splits)
qed

lemma memcpy_error: "memcpy dst src n \<noteq> Inl DivisionByZero"
  by (simp add: memcpy_def)

lemma compare_frames_error:
  assumes "blockSize (config s) \<noteq> 0" and "blockSize (config s) * blockSize (config s) \<noteq> 0"
  shows "compare_frames s env f b p \<noteq> Inl DivisionByZero"
  using assms(1) scan_blocks_error [OF assms(2)] memcpy_error
  unfolding compare_frames_def Let_def
  by (auto split: sum.splits)

lemma first_frame_error: "first_frame s env f b \<noteq> Inl DivisionByZero"
  using memcpy_error unfolding first_frame_def Let_def
  by (auto split: option.splits sum.splits)

lemma history_stats_error: "history_stats hist \<noteq> Inl DivisionByZero"
  unfolding history_stats_def
proof (intro foldE_not_error)
  fix v t
  show "history_step hist v t \<noteq> Inl DivisionByZero"
    using read_at_error [of hist v] by (auto simp: history_step_def split: sum.splits)
qed

lemma jpeg_error: "detectFromJpegSize s env f \<noteq> Inl DivisionByZero"
  using history_stats_error [of "(jpegSizeHistory s)[historyIdx s := len f]"]
  unfolding detectFromJpegSize_def average_size_def Let_def
  by (auto split: sum.splits prod.splits)

lemma detect_error:
  assumes "blockSize (config s) \<noteq> 0" and "blockSize (config s) * blockSize (config s) \<noteq> 0"
  shows "detect s env frame \<noteq> Inl DivisionByZero"
  using compare_frames_error [OF assms] first_frame_error jpeg_error
  unfolding detect_def detect_grayscale_def
  by (auto split: option.splits)

lemma block_size_safe:
  fixes bs :: u16
  assumes "0 < unat bs" and "unat bs * unat bs < 65536"
  shows "bs \<noteq> 0 \<and> bs * bs \<noteq> 0"
proof -
  have "unat (bs * bs) = unat bs * unat bs" using assms(2) by (rule pixels_in_block_unat)
  with assms(1) have "0 < unat (bs * bs)" by simp
  with assms(1) show ?thesis by (auto simp: unat_gt_0)
qed

lemma block_size_256: "(256 :: u16) * 256 = 0" "(256 :: u16) \<noteq> 0" "unat (256 :: u16) = 256"
  by simp_all

lemma scan_blocks_256:
  assumes bs: "blockSize cfg = 256"
    and bx: "0 < unat blocksX" "unat blocksX \<le> w div 256"
    and "by": "0 < unat blocksY" "unat blocksY \<le> h div 256"
    and cur: "w * h \<le> length cur" and prev: "w * h \<le> length prev"
  shows "scan_blocks cfg cur prev w blocksX blocksY = Inl DivisionByZero"
proof -
  have g: "0 < w div unat (blockSize cfg)" "0 < h div unat (blockSize cfg)"
    using bs bx "by" by simp_all
  have "block_avg cfg cur prev w 0 0 = Inl DivisionByZero"
    using block_diff_in_grid [OF g cur prev] bs by (simp add: block_avg_def Let_def)
  then have step: "block_step cfg cur prev w 0 0 sc = Inl DivisionByZero" for sc
    by (simp add: block_step_def)
  have row: "foldE (block_step cfg cur prev w 0) [0..<unat blocksX] sc = Inl DivisionByZero" for sc
    using bx(1) step by (simp add: upt_first)
  show ?thesis
    unfolding scan_blocks_def using "by"(1) row by (simp add: upt_first)
qed

lemma detect_256:
  assumes "blockSize (config s) = 256"
    and "buf f = Some b" and "len f \<noteq> 0" and "format f = PIXFORMAT_GRAYSCALE"
    and "\<not> cooldown_active s env"
    and "prevFrame s = Some p" and "prevWidth s = width f" and "prevHeight s = height f"
    and w: "256 \<le> unat (width f)" and h: "256 \<le> unat (height f)"
    and cur: "unat (width f) * unat (height f) \<le> length b"
    and prev: "unat (width f) * unat (height f) \<le> length p"
  shows "detect s env (Some f) = Inl DivisionByZero"
proof -
  have bx: "unat (width f div 256) = unat (width f) div 256"
    and "by": "unat (height f div 256) = unat (height f) div 256"
    by (simp_all add: unat_div)
  have px: "0 < unat (width f) div 256" and py: "0 < unat (height f) div 256"
    using w h by (simp_all add: div_greater_zero_iff)
  have "scan_blocks (config s) b p (unat (width f)) (width f div 256) (height f div 256) = Inl DivisionByZero"
    using assms(1) px py cur prev
    by (intro scan_blocks_256) (simp_all add: bx "by")
  then have "compare_frames s env f b p = Inl DivisionByZero"
    using assms(1) by (simp add: compare_frames_def Let_def)
  then show ?thesis
    using assms(2-8) by (simp add: detect_def detect_grayscale_def)
qed

subsection \<open>The assembled result\<close>

lemmas gray_defs = detect_def detect_grayscale_def compare_frames_def scan_blocks_def block_step_def
  block_avg_def block_diff_def pixel_step_def read_at_def pixel_index_def abs_diff_def mark_block_def
  scan_init_def memcpy_def bounding_box_def size_filter_def block_confidence_def accept_def
  no_detection_def upt2 Let_def cooldown_active_def small_detector_def small_config_def
  MotionDetector_new_def gray_frame_def env_at_def

lemma measured_flags: "detected (measured cfg w h sc) \<and> \<not> sizeFiltered (measured cfg w h sc)"
  by (simp add: measured_def block_confidence_def bounding_box_def no_detection_def Let_def)

lemma filter_then_confidence:
  "block_confidence (size_filter cfg (bounding_box cfg w h sc r0)) =
     (block_confidence (bounding_box cfg w h sc r0))
       \<lparr>sizeFiltered := sizeFiltered r0 \<or>
            (sizePercent (bounding_box cfg w h sc r0) < minSizePercent cfg
             \<or> sizePercent (bounding_box cfg w h sc r0) > maxSizePercent cfg),
        detected := \<not> (sizePercent (bounding_box cfg w h sc r0) < minSizePercent cfg
             \<or> sizePercent (bounding_box cfg w h sc r0) > maxSizePercent cfg)\<rparr>"
  by (auto simp: size_filter_def block_confidence_def bounding_box_def Let_def)

lemma confidence_keeps_size: "sizePercent (block_confidence r) = sizePercent r"
  by (simp add: block_confidence_def Let_def)

lemma assemble_keeps_changed:
  "changedBlocks (block_confidence (size_filter cfg (bounding_box cfg w h sc r0))) = changedBlocks r0"
  by (simp add: size_filter_def block_confidence_def bounding_box_def Let_def)

lemma compare_frames_result:
  assumes "compare_frames s env f b p = Inr (r, s')"
  shows "\<exists>sc. scan_blocks (config s) b p (unat (width f)) (width f div blockSize (config s))
                 (height f div blockSize (config s)) = Inr sc
              \<and> changedBlocks r = sc_changed sc
              \<and> (sc_changed sc \<noteq> 0 \<longrightarrow>
                   r = block_confidence (size_filter (config s)
                         (bounding_box (config s) (width f) (height f) sc
                            (no_detection\<lparr>totalBlocks := ucast (width f div blockSize (config s))
                                                             * ucast (height f div blockSize (config s)),
                                           changedBlocks := sc_changed sc\<rparr>))))"
  using assms unfolding compare_frames_def Let_def
  by (auto simp: word_greater_zero_iff no_detection_def assemble_keeps_changed
      split: if_splits sum.splits)

lemma detect_changed_path:
  assumes "detect s env frame = Inr (r, s')" and "changedBlocks r \<noteq> 0"
  shows "\<exists>f b p. frame = Some f \<and> buf f = Some b \<and> format f = PIXFORMAT_GRAYSCALE
           \<and> prevFrame s = Some p \<and> compare_frames s env f b p = Inr (r, s')"
proof -
  have j: "changedBlocks r' = 0" if "detectFromJpegSize s env f = Inr (r', t)" for f r' t
    using that unfolding detectFromJpegSize_def Let_def
    by (auto simp: no_detection_def jpeg_size_filter_def split: if_splits sum.splits prod.splits)
  have ff: "changedBlocks r' = 0" if "first_frame s env f b = Inr (r', t)" for f b r' t
    using first_frame_time [OF that] by (simp add: no_detection_def)
  show ?thesis
    using assms j ff unfolding detect_def detect_grayscale_def
    by (auto simp: no_detection_def split: option.splits if_splits)
qed

lemma compare_frames_count:
  assumes cur: "length b = unat (width f) * unat (height f)"
    and prev: "length p = unat (width f) * unat (height f)"
    and pos: "0 < unat (blockSize (config s))"
    and small: "unat (blockSize (config s)) * unat (blockSize (config s)) < 65536"
  shows "\<exists>r s'. compare_frames s env f b p = Inr (r, s') \<and>
           unat (changedBlocks r) =
             card {(bx, by). bx < unat (width f) div unat (blockSize (config s))
                           \<and> by < unat (height f) div unat (blockSize (config s))
                           \<and> block_changed (config s) b p (unat (width f)) bx by}"
proof -
  let ?bs = "blockSize (config s)"
  have ne: "?bs \<noteq> 0" using pos by (auto simp: unat_gt_0)
  have bx: "unat (width f div ?bs) = unat (width f) div unat ?bs"
    and "by": "unat (height f div ?bs) = unat (height f) div unat ?bs"
    by (simp_all add: unat_div)
  from scan_blocks_count [of "width f div ?bs" "unat (width f)" "config s" "height f div ?bs"
      "unat (height f)" b p] cur prev pos small
  obtain sc where sc: "scan_blocks (config s) b p (unat (width f)) (width f div ?bs) (height f div ?bs) = Inr sc"
    and n: "unat (sc_changed sc) =
             card {(bx, by). bx < unat (width f) div unat ?bs \<and> by < unat (height f) div unat ?bs
                           \<and> block_changed (config s) b p (unat (width f)) bx by}"
    by (auto simp: bx "by")
  have m: "memcpy p b (unat (width f) * unat (height f)) = Inr b"
    using cur prev by (simp add: memcpy_def)
  have "\<exists>r s'. compare_frames s env f b p = Inr (r, s') \<and> changedBlocks r = sc_changed sc"
    using ne sc m unfolding compare_frames_def Let_def
    by (simp add: assemble_keeps_changed)
  with n show ?thesis by auto
qed

lemma memcpy_whole: "length src = n \<Longrightarrow> length dst = n \<Longrightarrow> memcpy dst src n = Inr src"
  by (simp add: memcpy_def)

lemma gray_frame_fields:
  "buf (gray_frame w h b) = Some b" "len (gray_frame w h b) = of_nat (length b)"
  "width (gray_frame w h b) = w" "height (gray_frame w h b) = h"
  "format (gray_frame w h b) = PIXFORMAT_GRAYSCALE"
  by (simp_all add: gray_frame_def)

subsection \<open>The 64 by 64 frame with one changed block\<close>

lemma split_index: "x < n \<Longrightarrow> (q * n + x) mod n = x \<and> (q * n + x) div n = (q::nat)"
  by simp

lemma index_64:
  assumes "bx < 4" and "by < 4" and "px < 16" and "py < 16"
  shows "pixel_index 16 64 bx by px py < 4096"
    and "pixel_index 16 64 bx by px py mod 64 div 16 = bx"
    and "pixel_index 16 64 bx by px py div 64 div 16 = by"
proof -
  have X: "bx * 16 + px < 64" using assms(1,3) by simp
  have Y: "by * 16 + py < 64" using assms(2,4) by simp
  have m: "pixel_index 16 64 bx by px py mod 64 = bx * 16 + px"
    and d: "pixel_index 16 64 bx by px py div 64 = by * 16 + py"
    unfolding pixel_index_def using split_index [OF X, of "by * 16 + py"] by blast+
  have "pixel_index 16 64 bx by px py = (by * 16 + py) * 64 + (bx * 16 + px)"
    by (simp only: pixel_index_def)
  then show "pixel_index 16 64 bx by px py < 4096" using X Y by simp
  show "pixel_index 16 64 bx by px py mod 64 div 16 = bx"
    unfolding m using split_index [OF assms(3), of bx] by blast
  show "pixel_index 16 64 bx by px py div 64 div 16 = by"
    unfolding d using split_index [OF assms(4), of "by"] by blast
qed

lemma block_frame_diff:
  assumes "bx < 4" and "by < 4" and "px < 16" and "py < 16"
  shows "abs_diff (block_frame bx0 by0 ! pixel_index 16 64 bx by px py)
                  (zero_frame ! pixel_index 16 64 bx by px py) =
         (if bx = bx0 \<and> by = by0 then 100 else 0)"
  using index_64 [OF assms]
  by (simp add: block_frame_def zero_frame_def abs_diff_def)

lemma block_frame_sum:
  assumes "bx < 4" and "by < 4"
  shows "block_sum (block_frame bx0 by0) zero_frame 16 64 bx by =
         (if bx = bx0 \<and> by = by0 then 25600 else 0)"
proof -
  have "block_sum (block_frame bx0 by0) zero_frame 16 64 bx by =
        (\<Sum>py<(16::nat). \<Sum>px<(16::nat). (if bx = bx0 \<and> by = by0 then 100 else 0))"
    unfolding block_sum_def
    by (intro sum.cong refl block_frame_diff assms) simp_all
  then show ?thesis by simp
qed

lemma block_frame_changed:
  assumes "threshold cfg = 25" and "blockSize cfg = 16" and "bx < 4" and "by < 4"
  shows "block_changed cfg (block_frame bx0 by0) zero_frame 64 bx by \<longleftrightarrow> bx = bx0 \<and> by = by0"
  using assms(1,2) block_frame_sum [OF assms(3,4), of bx0 by0]
  by (simp add: block_changed_div)

lemma below_4: "(n::nat) < 4 \<Longrightarrow> n = 0 \<or> n = 1 \<or> n = 2 \<or> n = 3"
  by arith

lemma frame_lengths: "length (block_frame bx0 by0) = 4096" "length zero_frame = 4096"
  by (simp_all add: block_frame_def zero_frame_def)

lemma scan_single_fold:
  assumes cfg: "threshold cfg = 25" "blockSize cfg = 16" 
  shows "scan_blocks cfg (block_frame bx0 by0) zero_frame 64 4 4 =
           Inr (fold (\<lambda>by. fold (\<lambda>bx sc. if block_changed cfg (block_frame bx0 by0) zero_frame 64 bx by
                                           then mark_block bx by sc else sc) [0..<unat (4::u16)])
                  [0..<unat (4::u16)] (scan_init 4 4))"
    by (rule scan_blocks_fold [where h = 64])
      (simp_all add: cfg frame_lengths)

lemma unat4: "unat (4::u16) = 4" by simp

lemma row_single:
  assumes "bx0 < 4"
  shows "fold (\<lambda>bx sc. if bx = bx0 \<and> P then mark_block bx by sc else sc) [0, 1, 2, 3] sc =
         (if P then mark_block bx0 by sc else sc)"
  using below_4 [OF assms] by (elim disjE) simp_all

lemma grid_single:
  assumes "bx0 < 4" and "by0 < 4"
  shows "fold (\<lambda>by. fold (\<lambda>bx sc. if bx = bx0 \<and> by = by0 then mark_block bx by sc else sc)
                       [0, 1, 2, 3]) [0, 1, 2, 3] sc =
         mark_block bx0 by0 sc"
  unfolding row_single [OF assms(1)]
  using below_4 [OF assms(2)] by (elim disjE) simp_all

lemma mark_first:
  assumes "bx0 < 4" and "by0 < 4"
  shows "mark_block bx0 by0 (scan_init 4 4) =
         \<lparr>sc_changed = 1, sc_minX = of_nat bx0, sc_minY = of_nat by0,
          sc_maxX = of_nat bx0, sc_maxY = of_nat by0\<rparr>"
  using below_4 [OF assms(1)] below_4 [OF assms(2)]
  by (elim disjE) (simp_all add: mark_block_def scan_init_def)

lemma grid_fold_cong:
  assumes "\<And>bx by. bx \<in> set xs \<Longrightarrow> by \<in> set ys \<Longrightarrow> P bx by = Q bx by"
  shows "fold (\<lambda>by. fold (\<lambda>bx sc. if P bx by then mark_block bx by sc else sc) xs) ys sc =
         fold (\<lambda>by. fold (\<lambda>bx sc. if Q bx by then mark_block bx by sc else sc) xs) ys sc"
proof (rule fold_cong [OF refl refl])
  fix v assume v: "v \<in> set ys"
  show "fold (\<lambda>bx sc. if P bx v then mark_block bx v sc else sc) xs =
        fold (\<lambda>bx sc. if Q bx v then mark_block bx v sc else sc) xs"
  proof (rule ext, rule fold_cong [OF refl refl])
    fix u assume "u \<in> set xs"
    with v show "(\<lambda>sc. if P u v then mark_block u v sc else sc) =
                 (\<lambda>sc. if Q u v then mark_block u v sc else sc)"
      by (simp add: assms)
  qed
qed

lemma scan_single_block:
  assumes cfg: "threshold cfg = 25" "blockSize cfg = 16" and b: "bx0 < 4" "by0 < 4"
  shows "scan_blocks cfg (block_frame bx0 by0) zero_frame 64 4 4 =
           Inr \<lparr>sc_changed = 1, sc_minX = of_nat bx0, sc_minY = of_nat by0,
                sc_maxX = of_nat bx0, sc_maxY = of_nat by0\<rparr>"
proof -
  have "fold (\<lambda>by. fold (\<lambda>bx sc. if block_changed cfg (block_frame bx0 by0) zero_frame 64 bx by
                                   then mark_block bx by sc else sc) [0, 1, 2, 3])
          [0, 1, 2, 3] (scan_init 4 4) =
        fold (\<lambda>by. fold (\<lambda>bx sc. if bx = bx0 \<and> by = by0 then mark_block bx by sc else sc)
                       [0, 1, 2, 3]) [0, 1, 2, 3] (scan_init 4 4)"
  proof (rule grid_fold_cong)
    fix bx "by" :: nat assume "bx \<in> set [0, 1, 2, 3]" "by \<in> set [0, 1, 2, 3]"
    then have "bx < 4" "by < 4" by auto
    with cfg show "block_changed cfg (block_frame bx0 by0) zero_frame 64 bx by = (bx = bx0 \<and> by = by0)"
      by (rule block_frame_changed)
  qed
  also have "\<dots> = mark_block bx0 by0 (scan_init 4 4)" using b by (rule grid_single)
  also have "\<dots> = \<lparr>sc_changed = 1, sc_minX = of_nat bx0, sc_minY = of_nat by0,
                sc_maxX = of_nat bx0, sc_maxY = of_nat by0\<rparr>" using b by (rule mark_first)
  finally show ?thesis
    unfolding scan_single_fold [OF cfg] unat4 upt4 by (rule arg_cong)
qed

lemma first_zero_frame:
  assumes first: "prevFrame s = None \<or> prevWidth s \<noteq> 64 \<or> prevHeight s \<noteq> 64"
    and alloc: "spiram_ok env \<or> heap_ok env"
    and cd: "\<not> cooldown_active s env"
  shows "detect s env (Some (gray_frame 64 64 zero_frame)) =
           Inr (no_detection, s\<lparr>prevFrame := Some zero_frame, prevWidth := 64, prevHeight := 64\<rparr>)"
proof -
  have m: "memcpy (replicate 4096 0) zero_frame 4096 = Inr zero_frame"
    by (rule memcpy_whole) (simp_all add: frame_lengths)
  have ff: "first_frame s env (gray_frame 64 64 zero_frame) zero_frame =
           Inr (no_detection, s\<lparr>prevFrame := Some zero_frame, prevWidth := 64, prevHeight := 64\<rparr>)"
    using alloc m by (simp add: first_frame_def allocatePrevFrame_def Let_def gray_frame_fields)
  have g: "detect_grayscale s env (gray_frame 64 64 zero_frame) zero_frame =
           first_frame s env (gray_frame 64 64 zero_frame) zero_frame"
    using first by (auto simp: detect_grayscale_def gray_frame_fields split: option.splits)
  show ?thesis
    using cd by (simp add: detect_def gray_frame_fields frame_lengths g ff)
qed

lemma single_block_result:
  assumes cfg: "threshold (config s) = 25" "blockSize (config s) = 16"
      "minSizePercent (config s) = 1" "maxSizePercent (config s) = 30"
    and prev: "prevFrame s = Some zero_frame" "prevWidth s = 64" "prevHeight s = 64"
    and cd: "\<not> cooldown_active s env"
    and b: "bx0 < 4" "by0 < 4"
  shows "detect s env (Some (gray_frame 64 64 (block_frame bx0 by0))) =
           Inr (\<lparr>detected = True, sizeFiltered = False,
                  res_x = of_nat (16 * bx0), res_y = of_nat (16 * by0),
                  res_width = 16, res_height = 16, sizePercent = 6.25,
                  changedBlocks = 1, totalBlocks = 16, confidence = 0.3125\<rparr>,
                s\<lparr>prevFrame := Some (block_frame bx0 by0), lastDetectionTime := millis_accept env\<rparr>)"
proof -
  let ?f = "gray_frame 64 64 (block_frame bx0 by0)"
  have sc: "scan_blocks (config s) (block_frame bx0 by0) zero_frame 64 4 4 =
           Inr \<lparr>sc_changed = 1, sc_minX = of_nat bx0, sc_minY = of_nat by0,
                sc_maxX = of_nat bx0, sc_maxY = of_nat by0\<rparr>"
    using cfg(1,2) b by (rule scan_single_block)
  have m: "memcpy zero_frame (block_frame bx0 by0) 4096 = Inr (block_frame bx0 by0)"
    by (rule memcpy_whole) (simp_all add: frame_lengths)
  have cmp: "compare_frames s env ?f (block_frame bx0 by0) zero_frame =
           Inr (\<lparr>detected = True, sizeFiltered = False,
                  res_x = of_nat (16 * bx0), res_y = of_nat (16 * by0),
                  res_width = 16, res_height = 16, sizePercent = 6.25,
                  changedBlocks = 1, totalBlocks = 16, confidence = 0.3125\<rparr>,
                s\<lparr>prevFrame := Some (block_frame bx0 by0), lastDetectionTime := millis_accept env\<rparr>)"
    using cfg sc m
    by (simp add: compare_frames_def Let_def gray_frame_fields bounding_box_def size_filter_def
        block_confidence_def accept_def no_detection_def)
  show ?thesis
    using cd prev cmp
    by (simp add: detect_def detect_grayscale_def gray_frame_fields frame_lengths)
qed

subsection \<open>Block sizes whose 16-bit pixel count is zero, and one whose count is not\<close>

lemma scan_blocks_wrap:
  assumes z: "blockSize cfg * blockSize cfg = 0"
    and bx: "0 < unat blocksX" "unat blocksX \<le> w div unat (blockSize cfg)"
    and "by": "0 < unat blocksY" "unat blocksY \<le> h div unat (blockSize cfg)"
    and cur: "w * h \<le> length cur" and prev: "w * h \<le> length prev"
  shows "scan_blocks cfg cur prev w blocksX blocksY = Inl DivisionByZero"
proof -
  have g: "0 < w div unat (blockSize cfg)" "0 < h div unat (blockSize cfg)"
    using bx "by" by simp_all
  have "block_avg cfg cur prev w 0 0 = Inl DivisionByZero"
    using block_diff_in_grid [OF g cur prev] z by (simp add: block_avg_def Let_def)
  then have step: "block_step cfg cur prev w 0 0 sc = Inl DivisionByZero" for sc
    by (simp add: block_step_def)
  have row: "foldE (block_step cfg cur prev w 0) [0..<unat blocksX] sc = Inl DivisionByZero" for sc
    using bx(1) step by (simp add: upt_first)
  show ?thesis
    unfolding scan_blocks_def using "by"(1) row by (simp add: upt_first)
qed

lemma detect_wrap:
  assumes z: "blockSize (config s) = 0 \<or> blockSize (config s) * blockSize (config s) = 0"
    and fr: "buf f = Some b" "len f \<noteq> 0" "format f = PIXFORMAT_GRAYSCALE"
    and cd: "\<not> cooldown_active s env"
    and base: "prevFrame s = Some p" "prevWidth s = width f" "prevHeight s = height f"
    and w: "unat (blockSize (config s)) \<le> unat (width f)"
    and h: "unat (blockSize (config s)) \<le> unat (height f)"
    and cur: "unat (width f) * unat (height f) \<le> length b"
    and prev: "unat (width f) * unat (height f) \<le> length p"
  shows "detect s env (Some f) = Inl DivisionByZero"
proof -
  let ?bs = "blockSize (config s)"
  have "compare_frames s env f b p = Inl DivisionByZero"
  proof (cases "?bs = 0")
    case True
    then show ?thesis by (simp add: compare_frames_def Let_def)
  next
    case False
    with z have zz: "?bs * ?bs = 0" by simp
    from False have pos: "0 < unat ?bs" by (simp add: unat_gt_0)
    have bx: "unat (width f div ?bs) = unat (width f) div unat ?bs"
      and "by": "unat (height f div ?bs) = unat (height f) div unat ?bs"
      by (simp_all add: unat_div)
    have px: "0 < unat (width f) div unat ?bs" and py: "0 < unat (height f) div unat ?bs"
      using w h pos by (simp_all add: div_greater_zero_iff)
    have "scan_blocks (config s) b p (unat (width f)) (width f div ?bs) (height f div ?bs)
            = Inl DivisionByZero"
      using zz px py cur prev
      by (intro scan_blocks_wrap) (simp_all add: bx "by")
    then show ?thesis
      using False by (simp add: compare_frames_def Let_def)
  qed
  then show ?thesis
    using fr cd base by (simp add: detect_def detect_grayscale_def)
qed

lemma abs_diff_same: "abs_diff a a = 0"
  by (simp add: abs_diff_def)

lemma block_sum_same: "block_sum l l bs w bx by = 0"
  by (simp add: block_sum_def abs_diff_same)

lemma scan_odd:
  assumes cfg: "blockSize cfg = 257" "threshold cfg = 25"
    and l: "66049 \<le> length l"
  shows "scan_blocks cfg l l 257 1 1 = Inr (scan_init 1 1)"
proof -
  have g: "(0::nat) < 257 div 257" by simp
  have ll: "(257::nat) * 257 \<le> length l" using l by simp
  have d: "block_diff l l 257 257 0 0 = Inr 0"
    using block_diff_in_grid [OF g g ll ll] by (simp add: block_sum_same)
  have a: "block_avg cfg l l 257 0 0 = Inr 0"
    using d cfg(1) by (simp add: block_avg_def Let_def)
  have st: "block_step cfg l l 257 0 0 sc = Inr sc" for sc
    using a cfg(2) by (simp add: block_step_def)
  show ?thesis
    unfolding scan_blocks_def by (simp add: st)
qed

lemma detect_odd:
  "detect odd_detector (env_at 5000 True) (Some (gray_frame 257 257 (replicate 66049 0))) =
     Inr (no_detection\<lparr>totalBlocks := 1\<rparr>, odd_detector)"
proof -
  let ?l = "replicate 66049 0 :: u8 list"
  have c: "blockSize (config odd_detector) = 257" "threshold (config odd_detector) = 25"
    by (simp_all add: odd_detector_def)
  have sc: "scan_blocks (config odd_detector) ?l ?l 257 1 1 = Inr (scan_init 1 1)"
    using c by (rule scan_odd) simp
  have m: "memcpy ?l ?l 66049 = Inr ?l" by (rule memcpy_whole) simp_all
  have p: "prevFrame odd_detector = Some ?l" "prevWidth odd_detector = 257"
    "prevHeight odd_detector = 257"
    by (simp_all add: odd_detector_def)
  have s: "odd_detector\<lparr>prevFrame := Some ?l\<rparr> = odd_detector"
    by (simp add: odd_detector_def)
  have cmp: "compare_frames odd_detector (env_at 5000 True) (gray_frame 257 257 ?l) ?l ?l =
     Inr (no_detection\<lparr>totalBlocks := 1\<rparr>, odd_detector)"
    using c sc m s
    by (simp add: compare_frames_def Let_def gray_frame_fields scan_init_def no_detection_def)
  have cd: "\<not> cooldown_active odd_detector (env_at 5000 True)"
    by (simp add: cooldown_active_def odd_detector_def MotionDetector_new_def env_at_def)
  show ?thesis
    using cd p cmp by (simp add: detect_def detect_grayscale_def gray_frame_fields)
qed

subsection \<open>Claims about the gates of detect\<close>

text \<open>
  Claim C7. A frame with a null data pointer or zero length (and a null frame), and a
  frame whose pixel format is neither grayscale nor JPEG, makes \<open>detect\<close> return the
  all-false result and leave every field of the state as it was: the buffer, the stored
  dimensions, the JPEG size history and \<open>lastDetectionTime\<close>.
\<close>

theorem C7_invalid_or_unsupported:
  "invalid_frame frame \<or> unsupported_format frame \<Longrightarrow> detect s env frame = Inr (no_detection, s)"
  using detect_invalid detect_unsupported by blast

theorem C7_witness:
  "invalid_frame None \<and> detect baseline_detector (env_at 20000 True) None = Inr (no_detection, baseline_detector)
   \<and> invalid_frame (Some (gray_zero\<lparr>len := 0\<rparr>))
   \<and> detect baseline_detector (env_at 20000 True) (Some (gray_zero\<lparr>len := 0\<rparr>)) = Inr (no_detection, baseline_detector)
   \<and> invalid_frame (Some (gray_zero\<lparr>buf := None\<rparr>))
   \<and> detect baseline_detector (env_at 20000 True) (Some (gray_zero\<lparr>buf := None\<rparr>)) = Inr (no_detection, baseline_detector)
   \<and> unsupported_format (Some rgb_frame)
   \<and> detect baseline_detector (env_at 20000 True) (Some rgb_frame) = Inr (no_detection, baseline_detector)"
  using C7_invalid_or_unsupported [of None baseline_detector "env_at 20000 True"]
    C7_invalid_or_unsupported [of "Some (gray_zero\<lparr>len := 0\<rparr>)" baseline_detector "env_at 20000 True"]
    C7_invalid_or_unsupported [of "Some (gray_zero\<lparr>buf := None\<rparr>)" baseline_detector "env_at 20000 True"]
    C7_invalid_or_unsupported [of "Some rgb_frame" baseline_detector "env_at 20000 True"]
  by (simp add: invalid_frame_def unsupported_format_def gray_zero_def gray_frame_def rgb_frame_def)

text \<open>
  Claim C5. While \<open>millis() - lastDetectionTime < cooldownMs\<close> a call of \<open>detect\<close>, on a
  valid frame as on any other, returns the all-false result and the state unchanged. And
  whenever \<open>detect\<close> returns, \<open>lastDetectionTime\<close> is the clock value read at acceptance if
  the result has \<open>detected = true\<close>, and is unchanged otherwise.
\<close>

theorem C5_cooldown_gate:
  "(cooldown_active s env \<longrightarrow> detect s env frame = Inr (no_detection, s)) \<and>
   (\<forall>r s'. detect s env frame = Inr (r, s') \<longrightarrow>
      lastDetectionTime s' = (if detected r then millis_accept env else lastDetectionTime s))"
  using detect_cooldown detect_time by blast

theorem C5_witness:
  "cooldown_active baseline_detector (env_at 10999 True)
   \<and> detect baseline_detector (env_at 10999 True) (Some gray_zero) = Inr (no_detection, baseline_detector)
   \<and> detect warm_detector (env_at 5000 True) (Some (jpeg_frame 1500)) =
       Inr (\<lparr>detected = True, sizeFiltered = False, res_x = 16, res_y = 16,
              res_width = 32, res_height = 32, sizePercent = 400 / 11,
              changedBlocks = 0, totalBlocks = 0, confidence = 1\<rparr>,
            warm_detector\<lparr>lastDetectionTime := 5001, prevJpegSize := 1500,
              jpegSizeHistory := [1500, 1000, 1000, 1000, 1000], historyIdx := 1\<rparr>)
   \<and> lastDetectionTime (warm_detector\<lparr>lastDetectionTime := 5001, prevJpegSize := 1500,
              jpegSizeHistory := [1500, 1000, 1000, 1000, 1000], historyIdx := 1\<rparr>) = millis_accept (env_at 5000 True)"
proof -
  have c: "cooldown_active baseline_detector (env_at 10999 True)"
    by (simp add: cooldown_active_def baseline_detector_def env_at_def MotionDetector_new_def)
  have d: "detect warm_detector (env_at 5000 True) (Some (jpeg_frame 1500)) =
       Inr (\<lparr>detected = True, sizeFiltered = False, res_x = 16, res_y = 16,
              res_width = 32, res_height = 32, sizePercent = 400 / 11,
              changedBlocks = 0, totalBlocks = 0, confidence = 1\<rparr>,
            warm_detector\<lparr>lastDetectionTime := 5001, prevJpegSize := 1500,
              jpegSizeHistory := [1500, 1000, 1000, 1000, 1000], historyIdx := 1\<rparr>)"
    by (simp add: eval_defs)
  from C5_cooldown_gate [of baseline_detector "env_at 10999 True" "Some gray_zero"] c
  have 1: "detect baseline_detector (env_at 10999 True) (Some gray_zero) = Inr (no_detection, baseline_detector)"
    by blast
  from C5_cooldown_gate [of warm_detector "env_at 5000 True" "Some (jpeg_frame 1500)"] d
  have 2: "lastDetectionTime (warm_detector\<lparr>lastDetectionTime := 5001, prevJpegSize := 1500,
              jpegSizeHistory := [1500, 1000, 1000, 1000, 1000], historyIdx := 1\<rparr>) = millis_accept (env_at 5000 True)"
    by simp
  from c 1 d 2 show ?thesis by blast
qed

text \<open>
  Claim C10. A freshly constructed detector (with its default or any other configuration)
  and a detector just reset have \<open>lastDetectionTime = 0\<close> and no baseline; while the clock
  is below \<open>cooldownMs\<close>, every call of \<open>detect\<close> returns the all-false result and leaves
  the state, still without a baseline, as it was.
\<close>

theorem C10_startup_cooldown:
  assumes "s0 = MotionDetector_new \<or> s0 = setConfig cfg MotionDetector_new \<or> s0 = reset s"
    and "millis_check env < ucast (cooldownMs (config s0))"
  shows "lastDetectionTime s0 = 0 \<and> prevFrame s0 = None
         \<and> detect s0 env frame = Inr (no_detection, s0)"
proof -
  from assms(1) have t: "lastDetectionTime s0 = 0" and p: "prevFrame s0 = None"
    by (auto simp: MotionDetector_new_def setConfig_def reset_def)
  from t assms(2) have "cooldown_active s0 env"
    by (simp add: cooldown_active_def)
  then have "detect s0 env frame = Inr (no_detection, s0)"
    by (rule detect_cooldown)
  with t p show ?thesis by simp
qed

theorem C10_witness:
  "millis_check (env_at 1999 True) < ucast (cooldownMs (config MotionDetector_new))
   \<and> lastDetectionTime MotionDetector_new = 0 \<and> prevFrame MotionDetector_new = None
   \<and> detect MotionDetector_new (env_at 1999 True) (Some gray_zero) = Inr (no_detection, MotionDetector_new)
   \<and> millis_check (env_at 1999 True) < ucast (cooldownMs (config (reset baseline_detector)))
   \<and> lastDetectionTime (reset baseline_detector) = 0 \<and> prevFrame (reset baseline_detector) = None
   \<and> detect (reset baseline_detector) (env_at 1999 True) (Some gray_zero) = Inr (no_detection, reset baseline_detector)"
proof -
  have a: "millis_check (env_at 1999 True) < ucast (cooldownMs (config MotionDetector_new))"
    by (simp add: env_at_def MotionDetector_new_def)
  have b: "millis_check (env_at 1999 True) < ucast (cooldownMs (config (reset baseline_detector)))"
    by (simp add: env_at_def MotionDetector_new_def reset_def baseline_detector_def)
  from a b
    C10_startup_cooldown [of MotionDetector_new undefined undefined "env_at 1999 True" "Some gray_zero", OF _ a]
    C10_startup_cooldown [of "reset baseline_detector" undefined baseline_detector "env_at 1999 True" "Some gray_zero", OF _ b]
  show ?thesis by simp
qed

subsection \<open>Claims about reset, the encoded path and the allocation\<close>

text \<open>
  Claim C4, as the code has it. \<open>reset\<close> releases the previous-frame buffer, zeroes the
  stored dimensions and clears \<open>lastDetectionTime\<close>, and nothing else: the JPEG size
  history, its cursor and the previous JPEG length (the \<open>static\<close> locals of
  \<open>detectFromJpegSize\<close>) and the configuration are as before, and the verdict of the encoded
  path after \<open>reset\<close> is the verdict it would have given without it, so the warm-up does not
  restart.
\<close>

theorem C4_reset_keeps_history:
  "reset s = s\<lparr>prevFrame := None, prevWidth := 0, prevHeight := 0, lastDetectionTime := 0\<rparr>
   \<and> jpegSizeHistory (reset s) = jpegSizeHistory s \<and> historyIdx (reset s) = historyIdx s
   \<and> prevJpegSize (reset s) = prevJpegSize s \<and> config (reset s) = config s
   \<and> map_sum id fst (detectFromJpegSize (reset s) env f) = map_sum id fst (detectFromJpegSize s env f)"
  using jpeg_verdict_reset [of s env f] by (simp add: reset_def)

text \<open>
  Claim C4 as stated fails: five encoded frames of 1000 bytes fill the history of a new
  detector; after \<open>reset\<close> the history still holds them, and a frame of 1500 bytes is
  reported as motion at once, where a new detector is still warming up and reports nothing.
\<close>

theorem C4_counterexample:
  "foldE detect_next
     [(env_at 5000 True, Some (jpeg_frame 1000)), (env_at 5000 True, Some (jpeg_frame 1000)),
      (env_at 5000 True, Some (jpeg_frame 1000)), (env_at 5000 True, Some (jpeg_frame 1000)),
      (env_at 5000 True, Some (jpeg_frame 1000))]
     MotionDetector_new = Inr warm_detector
   \<and> jpegSizeHistory (reset warm_detector) = [1000, 1000, 1000, 1000, 1000]
   \<and> jpegSizeHistory MotionDetector_new = [0, 0, 0, 0, 0]
   \<and> detect (reset warm_detector) (env_at 5000 True) (Some (jpeg_frame 1500)) =
       Inr (\<lparr>detected = True, sizeFiltered = False, res_x = 16, res_y = 16,
              res_width = 32, res_height = 32, sizePercent = 400 / 11,
              changedBlocks = 0, totalBlocks = 0, confidence = 1\<rparr>,
            warm_detector\<lparr>lastDetectionTime := 5001, prevJpegSize := 1500,
              jpegSizeHistory := [1500, 1000, 1000, 1000, 1000], historyIdx := 1\<rparr>)
   \<and> detect MotionDetector_new (env_at 5000 True) (Some (jpeg_frame 1500)) =
       Inr (no_detection,
            MotionDetector_new\<lparr>prevJpegSize := 1500, jpegSizeHistory := [1500, 0, 0, 0, 0],
              historyIdx := 1\<rparr>)"
  by (simp add: eval_defs)

text \<open>
  Claim C3, evaluated on the code. After four encoded frames of 199 bytes, a frame of 204
  bytes makes the rolling average 200 and the deviation exactly 2 percent. The branch that
  sets \<open>sizeFiltered\<close> for a deviation below 3 is nested in the branch \<open>sizeDiff > 10\<close>, so
  it is never taken: the result is the all-false one, with \<open>sizeFiltered = false\<close>.
\<close>

theorem C3_noise_branch_unreachable:
  "foldE detect_next
     [(env_at 5000 True, Some (jpeg_frame 199)), (env_at 5000 True, Some (jpeg_frame 199)),
      (env_at 5000 True, Some (jpeg_frame 199)), (env_at 5000 True, Some (jpeg_frame 199))]
     MotionDetector_new = Inr quiet_detector
   \<and> average_size [199, 199, 199, 199, 204] = Inr (200, 5)
   \<and> size_deviation 204 200 = 2
   \<and> detect quiet_detector (env_at 5000 True) (Some (jpeg_frame 204)) =
       Inr (no_detection,
            quiet_detector\<lparr>prevJpegSize := 204, jpegSizeHistory := [199, 199, 199, 199, 204],
                           historyIdx := 0\<rparr>)
   \<and> sizeFiltered no_detection = False"
  by (simp add: eval_defs)

text \<open>
  Claim C8. On a first observation (no buffer, or other dimensions) of a valid grayscale
  frame outside the cooldown, when the allocation from PSRAM and the one from the general
  heap both fail, \<open>detect\<close> returns the all-false result, the buffer is null and the stored
  dimensions are zero. The next call with a frame of the same dimensions takes the
  first-observation branch again and allocates anew: if an allocation succeeds the frame
  is stored as the baseline, if both fail again the state stays as it is.
\<close>

theorem C8_allocation_failure:
  assumes "buf f = Some b" and "len f \<noteq> 0" and "format f = PIXFORMAT_GRAYSCALE"
    and "\<not> cooldown_active s env"
    and "prevFrame s = None \<or> prevWidth s \<noteq> width f \<or> prevHeight s \<noteq> height f"
    and "\<not> spiram_ok env" and "\<not> heap_ok env"
    and "s' = s\<lparr>prevFrame := None, prevWidth := 0, prevHeight := 0\<rparr>"
    and "buf f' = Some b'" and "len f' \<noteq> 0" and "format f' = PIXFORMAT_GRAYSCALE"
    and "width f' = width f" and "height f' = height f"
    and "\<not> cooldown_active s' env'"
  shows "detect s env (Some f) = Inr (no_detection, s')
         \<and> detect s' env' (Some f') = first_frame s' env' f' b'
         \<and> (if spiram_ok env' \<or> heap_ok env'
            then (if unat (width f) * unat (height f) \<le> length b'
                  then detect s' env' (Some f') =
                         Inr (no_detection,
                              s'\<lparr>prevFrame := Some (take (unat (width f) * unat (height f)) b'),
                                 prevWidth := width f, prevHeight := height f\<rparr>)
                  else detect s' env' (Some f') = Inl OutOfBounds)
            else detect s' env' (Some f') = Inr (no_detection, s'))"
proof -
  have 1: "detect s env (Some f) = Inr (no_detection, s')"
    using assms(1-8)
    by (auto simp: detect_def detect_grayscale_def first_frame_def allocatePrevFrame_def Let_def
        split: option.splits)
  have 2: "detect s' env' (Some f') = first_frame s' env' f' b'"
    using assms(8-14) by (simp add: detect_def detect_grayscale_def)
  have 3: "first_frame s' env' f' b' =
       (if spiram_ok env' \<or> heap_ok env'
        then (if unat (width f) * unat (height f) \<le> length b'
              then Inr (no_detection,
                        s'\<lparr>prevFrame := Some (take (unat (width f) * unat (height f)) b'),
                           prevWidth := width f, prevHeight := height f\<rparr>)
              else Inl OutOfBounds)
        else Inr (no_detection, s'))"
    using assms(8,12,13)
    by (simp add: first_frame_def allocatePrevFrame_def Let_def memcpy_def)
  from 1 2 3 show ?thesis by simp
qed

theorem C8_witness:
  "buf gray_zero = Some [0, 0, 0, 0, 0, 0, 0, 0, 0, 0, 0, 0, 0, 0, 0, 0]
   \<and> len gray_zero \<noteq> 0 \<and> format gray_zero = PIXFORMAT_GRAYSCALE
   \<and> \<not> cooldown_active baseline_detector (env_at 20000 False)
   \<and> prevWidth baseline_detector \<noteq> width gray_zero
   \<and> \<not> spiram_ok (env_at 20000 False) \<and> \<not> heap_ok (env_at 20000 False)
   \<and> \<not> cooldown_active (baseline_detector\<lparr>prevFrame := None, prevWidth := 0, prevHeight := 0\<rparr>)
         (env_at 20100 True)
   \<and> heap_ok (env_at 20100 True)
   \<and> detect baseline_detector (env_at 20000 False) (Some gray_zero) =
       Inr (no_detection, baseline_detector\<lparr>prevFrame := None, prevWidth := 0, prevHeight := 0\<rparr>)
   \<and> detect (baseline_detector\<lparr>prevFrame := None, prevWidth := 0, prevHeight := 0\<rparr>)
        (env_at 20100 True) (Some gray_zero) =
       Inr (no_detection,
            baseline_detector\<lparr>prevFrame := Some [0, 0, 0, 0, 0, 0, 0, 0, 0, 0, 0, 0, 0, 0, 0, 0],
              prevWidth := 4, prevHeight := 4\<rparr>)"
proof -
  let ?s' = "baseline_detector\<lparr>prevFrame := None, prevWidth := 0, prevHeight := 0\<rparr>"
  let ?b = "[0, 0, 0, 0, 0, 0, 0, 0, 0, 0, 0, 0, 0, 0, 0, 0] :: u8 list"
  have h1: "buf gray_zero = Some ?b" and h2: "len gray_zero \<noteq> 0"
    and h3: "format gray_zero = PIXFORMAT_GRAYSCALE"
    by (simp_all add: gray_zero_def gray_frame_def)
  have h4: "\<not> cooldown_active baseline_detector (env_at 20000 False)"
    by (simp add: cooldown_active_def baseline_detector_def env_at_def MotionDetector_new_def)
  have h5: "prevWidth baseline_detector \<noteq> width gray_zero"
    by (simp add: baseline_detector_def gray_zero_def gray_frame_def MotionDetector_new_def)
  have h6: "\<not> spiram_ok (env_at 20000 False)" and h7: "\<not> heap_ok (env_at 20000 False)"
    and h8: "heap_ok (env_at 20100 True)"
    by (simp_all add: env_at_def)
  have h9: "\<not> cooldown_active ?s' (env_at 20100 True)"
    by (simp add: cooldown_active_def baseline_detector_def env_at_def MotionDetector_new_def)
  have dims: "unat (width gray_zero) * unat (height gray_zero) = 16" "length ?b = 16"
    "width gray_zero = 4" "height gray_zero = 4"
    by (simp_all add: gray_zero_def gray_frame_def)
  have h5': "prevFrame baseline_detector = None \<or> prevWidth baseline_detector \<noteq> width gray_zero
      \<or> prevHeight baseline_detector \<noteq> height gray_zero"
    using h5 by simp
  note r = C8_allocation_failure [of gray_zero ?b baseline_detector "env_at 20000 False" ?s'
      gray_zero ?b "env_at 20100 True", OF h1 h2 h3 h4 h5' h6 h7 refl h1 h2 h3 refl refl h9]
  from r have r1: "detect baseline_detector (env_at 20000 False) (Some gray_zero) = Inr (no_detection, ?s')"
    by (rule conjunct1)
  from r have r3: "if spiram_ok (env_at 20100 True) \<or> heap_ok (env_at 20100 True)
            then (if unat (width gray_zero) * unat (height gray_zero) \<le> length ?b
                  then detect ?s' (env_at 20100 True) (Some gray_zero) =
                         Inr (no_detection,
                              ?s'\<lparr>prevFrame := Some (take (unat (width gray_zero) * unat (height gray_zero)) ?b),
                                 prevWidth := width gray_zero, prevHeight := height gray_zero\<rparr>)
                  else detect ?s' (env_at 20100 True) (Some gray_zero) = Inl OutOfBounds)
            else detect ?s' (env_at 20100 True) (Some gray_zero) = Inr (no_detection, ?s')"
    by (rule conjunct2 [THEN conjunct2])
  from r3 h8 dims have r4: "detect ?s' (env_at 20100 True) (Some gray_zero) =
       Inr (no_detection, ?s'\<lparr>prevFrame := Some ?b, prevWidth := 4, prevHeight := 4\<rparr>)"
    by simp
  from r1 r4 have "detect baseline_detector (env_at 20000 False) (Some gray_zero) = Inr (no_detection, ?s')
    \<and> detect ?s' (env_at 20100 True) (Some gray_zero) =
       Inr (no_detection, ?s'\<lparr>prevFrame := Some ?b, prevWidth := 4, prevHeight := 4\<rparr>)"
    by (rule conjI)
  with h1 h2 h3 h4 h5 h6 h7 h8 h9 show ?thesis by simp
qed

subsection \<open>Claims about the block comparison\<close>

text \<open>
  Claim C1. A detector whose configuration has \<open>threshold = 25\<close>, \<open>blockSize = 16\<close>,
  \<open>minSizePercent = 1\<close> and \<open>maxSizePercent = 30\<close> sees a 64 by 64 grayscale frame of zeros
  as its first observation, then a frame that differs from it in one block of the grid,
  set to 100, the cooldown being over at both calls. The first call stores the frame; the
  second returns \<open>totalBlocks = 16\<close>, \<open>changedBlocks = 1\<close>, the box of that block (16 by 16
  pixels at \<open>(16 * bx0, 16 * by0)\<close>), \<open>sizePercent = 6.25\<close>, \<open>detected = true\<close>,
  \<open>sizeFiltered = false\<close> and \<open>confidence = 0.3125\<close>.
\<close>

theorem C1_single_block_detected:
  assumes "threshold (config s) = 25" and "blockSize (config s) = 16"
    and "minSizePercent (config s) = 1" and "maxSizePercent (config s) = 30"
    and "prevFrame s = None \<or> prevWidth s \<noteq> 64 \<or> prevHeight s \<noteq> 64"
    and "spiram_ok env1 \<or> heap_ok env1"
    and "\<not> cooldown_active s env1" and "\<not> cooldown_active s env2"
    and "bx0 < 4" and "by0 < 4"
  shows "detect s env1 (Some (gray_frame 64 64 zero_frame)) =
           Inr (no_detection, s\<lparr>prevFrame := Some zero_frame, prevWidth := 64, prevHeight := 64\<rparr>)
         \<and> detect (s\<lparr>prevFrame := Some zero_frame, prevWidth := 64, prevHeight := 64\<rparr>) env2
               (Some (gray_frame 64 64 (block_frame bx0 by0))) =
           Inr (\<lparr>detected = True, sizeFiltered = False,
                  res_x = of_nat (16 * bx0), res_y = of_nat (16 * by0),
                  res_width = 16, res_height = 16, sizePercent = 6.25,
                  changedBlocks = 1, totalBlocks = 16, confidence = 0.3125\<rparr>,
                s\<lparr>prevFrame := Some (block_frame bx0 by0), prevWidth := 64, prevHeight := 64,
                  lastDetectionTime := millis_accept env2\<rparr>)"
proof -
  let ?s1 = "s\<lparr>prevFrame := Some zero_frame, prevWidth := 64, prevHeight := 64\<rparr>"
  have 1: "detect s env1 (Some (gray_frame 64 64 zero_frame)) = Inr (no_detection, ?s1)"
    using assms(5,6,7) by (rule first_zero_frame)
  have cd: "\<not> cooldown_active ?s1 env2"
    using assms(8) by (simp add: cooldown_active_def)
  have 2: "detect ?s1 env2 (Some (gray_frame 64 64 (block_frame bx0 by0))) =
           Inr (\<lparr>detected = True, sizeFiltered = False,
                  res_x = of_nat (16 * bx0), res_y = of_nat (16 * by0),
                  res_width = 16, res_height = 16, sizePercent = 6.25,
                  changedBlocks = 1, totalBlocks = 16, confidence = 0.3125\<rparr>,
                ?s1\<lparr>prevFrame := Some (block_frame bx0 by0), lastDetectionTime := millis_accept env2\<rparr>)"
    using assms(1-4) cd assms(9,10) by (intro single_block_result) simp_all
  from 1 2 show ?thesis by simp
qed

theorem C1_witness:
  "threshold (config MotionDetector_new) = 25 \<and> blockSize (config MotionDetector_new) = 16
   \<and> minSizePercent (config MotionDetector_new) = 1 \<and> maxSizePercent (config MotionDetector_new) = 30
   \<and> prevFrame MotionDetector_new = None
   \<and> heap_ok (env_at 5000 True)
   \<and> \<not> cooldown_active MotionDetector_new (env_at 5000 True)
   \<and> \<not> cooldown_active MotionDetector_new (env_at 5100 True)
   \<and> detect MotionDetector_new (env_at 5000 True) (Some (gray_frame 64 64 zero_frame)) =
        Inr (no_detection,
             MotionDetector_new\<lparr>prevFrame := Some zero_frame, prevWidth := 64, prevHeight := 64\<rparr>)
   \<and> detect (MotionDetector_new\<lparr>prevFrame := Some zero_frame, prevWidth := 64, prevHeight := 64\<rparr>)
         (env_at 5100 True) (Some (gray_frame 64 64 (block_frame 1 2))) =
        Inr (\<lparr>detected = True, sizeFiltered = False, res_x = 16, res_y = 32,
               res_width = 16, res_height = 16, sizePercent = 6.25,
               changedBlocks = 1, totalBlocks = 16, confidence = 0.3125\<rparr>,
             MotionDetector_new\<lparr>prevFrame := Some (block_frame 1 2), prevWidth := 64,
               prevHeight := 64, lastDetectionTime := 5101\<rparr>)"
proof -
  have c: "threshold (config MotionDetector_new) = 25" "blockSize (config MotionDetector_new) = 16"
    "minSizePercent (config MotionDetector_new) = 1" "maxSizePercent (config MotionDetector_new) = 30"
    and p: "prevFrame MotionDetector_new = None"
    by (simp_all add: MotionDetector_new_def)
  have p': "prevFrame MotionDetector_new = None \<or> prevWidth MotionDetector_new \<noteq> 64
      \<or> prevHeight MotionDetector_new \<noteq> 64"
    using p by simp
  have a: "heap_ok (env_at 5000 True)" by (simp add: env_at_def)
  have a': "spiram_ok (env_at 5000 True) \<or> heap_ok (env_at 5000 True)" using a by simp
  have cd: "\<not> cooldown_active MotionDetector_new (env_at 5000 True)"
    "\<not> cooldown_active MotionDetector_new (env_at 5100 True)"
    by (simp_all add: cooldown_active_def MotionDetector_new_def env_at_def)
  have b: "(1::nat) < 4" "(2::nat) < 4" by simp_all
  have t: "millis_accept (env_at 5100 True) = 5101" by (simp add: env_at_def)
  note r = C1_single_block_detected [OF c p' a' cd b]
  from r c p a cd t show ?thesis by simp
qed

text \<open>
  Claim C2, as the code has it. When two grayscale frames of the same dimensions are
  compared (both buffers of \<open>width * height\<close> bytes, the cooldown over), with
  \<open>0 < blockSize\<close> and \<open>blockSize * blockSize < 65536\<close>, \<open>detect\<close> returns and
  \<open>changedBlocks\<close> is the number of blocks of the grid for which the integer part of the
  mean absolute difference exceeds the threshold: the average is an integer division.
\<close>

theorem C2_changed_blocks:
  assumes "buf f = Some b" and "len f \<noteq> 0" and "format f = PIXFORMAT_GRAYSCALE"
    and "\<not> cooldown_active s env"
    and "prevFrame s = Some p" and "prevWidth s = width f" and "prevHeight s = height f"
    and "length b = unat (width f) * unat (height f)"
    and "length p = unat (width f) * unat (height f)"
    and "0 < unat (blockSize (config s))"
    and "unat (blockSize (config s)) * unat (blockSize (config s)) < 65536"
  shows "\<exists>r s'. detect s env (Some f) = Inr (r, s') \<and>
           unat (changedBlocks r) =
             card {(bx, by). bx < unat (width f) div unat (blockSize (config s))
                           \<and> by < unat (height f) div unat (blockSize (config s))
                           \<and> int (unat (threshold (config s)))
                               < \<lfloor>mean_abs_diff b p (unat (blockSize (config s))) (unat (width f)) bx by\<rfloor>}"
proof -
  have "detect s env (Some f) = compare_frames s env f b p"
    using assms(1-7) by (simp add: detect_def detect_grayscale_def)
  with compare_frames_count [OF assms(8-11), of env] show ?thesis
    by (simp add: block_changed_def)
qed

theorem C2_witness:
  "buf spot_frame = Some [26, 26, 0, 0, 26, 26, 0, 0, 0, 0, 0, 0, 0, 0, 0, 0]
   \<and> len spot_frame \<noteq> 0 \<and> format spot_frame = PIXFORMAT_GRAYSCALE
   \<and> \<not> cooldown_active small_detector (env_at 5000 True)
   \<and> prevFrame small_detector = Some [0, 0, 0, 0, 0, 0, 0, 0, 0, 0, 0, 0, 0, 0, 0, 0]
   \<and> prevWidth small_detector = width spot_frame \<and> prevHeight small_detector = height spot_frame
   \<and> 0 < unat (blockSize (config small_detector))
   \<and> unat (blockSize (config small_detector)) * unat (blockSize (config small_detector)) < 65536
   \<and> (\<exists>r s'. detect small_detector (env_at 5000 True) (Some spot_frame) = Inr (r, s') \<and>
         unat (changedBlocks r) =
           card {(bx, by). bx < unat (width spot_frame) div unat (blockSize (config small_detector))
                   \<and> by < unat (height spot_frame) div unat (blockSize (config small_detector))
                   \<and> int (unat (threshold (config small_detector)))
                       < \<lfloor>mean_abs_diff [26, 26, 0, 0, 26, 26, 0, 0, 0, 0, 0, 0, 0, 0, 0, 0]
                            [0, 0, 0, 0, 0, 0, 0, 0, 0, 0, 0, 0, 0, 0, 0, 0]
                            (unat (blockSize (config small_detector))) (unat (width spot_frame)) bx by\<rfloor>})"
proof -
  let ?b = "[26, 26, 0, 0, 26, 26, 0, 0, 0, 0, 0, 0, 0, 0, 0, 0] :: u8 list"
  let ?p = "[0, 0, 0, 0, 0, 0, 0, 0, 0, 0, 0, 0, 0, 0, 0, 0] :: u8 list"
  have h1: "buf spot_frame = Some ?b" and h2: "len spot_frame \<noteq> 0"
    and h3: "format spot_frame = PIXFORMAT_GRAYSCALE"
    by (simp_all add: spot_frame_def gray_frame_def)
  have h4: "\<not> cooldown_active small_detector (env_at 5000 True)"
    by (simp add: cooldown_active_def small_detector_def small_config_def env_at_def MotionDetector_new_def)
  have h5: "prevFrame small_detector = Some ?p"
    and h6: "prevWidth small_detector = width spot_frame"
    and h7: "prevHeight small_detector = height spot_frame"
    by (simp_all add: small_detector_def spot_frame_def gray_frame_def)
  have h8: "length ?b = unat (width spot_frame) * unat (height spot_frame)"
    and h9: "length ?p = unat (width spot_frame) * unat (height spot_frame)"
    by (simp_all add: spot_frame_def gray_frame_def)
  have h10: "0 < unat (blockSize (config small_detector))"
    and h11: "unat (blockSize (config small_detector)) * unat (blockSize (config small_detector)) < 65536"
    by (simp_all add: small_detector_def small_config_def)
  note r = C2_changed_blocks [OF h1 h2 h3 h4 h5 h6 h7 h8 h9 h10 h11]
  from h1 h2 h3 h4 h5 h6 h7 h10 h11 r show ?thesis by blast
qed

text \<open>
  Claim C2 as stated fails: over the block \<open>(0, 0)\<close> of a 4 by 4 frame compared in
  blocks of 2 by 2, the pixels 26, 26, 25, 25 against zeros have the mean absolute
  difference 25.5, which exceeds the threshold 25, and the block is not counted.
\<close>

theorem C2_counterexample:
  "mean_abs_diff [26, 26, 0, 0, 25, 25, 0, 0, 0, 0, 0, 0, 0, 0, 0, 0]
      [0, 0, 0, 0, 0, 0, 0, 0, 0, 0, 0, 0, 0, 0, 0, 0] 2 4 0 0 = 51 / 2
   \<and> real (unat (threshold (config small_detector))) < 51 / 2
   \<and> prevFrame small_detector = Some [0, 0, 0, 0, 0, 0, 0, 0, 0, 0, 0, 0, 0, 0, 0, 0]
   \<and> detect small_detector (env_at 5000 True)
        (Some (gray_frame 4 4 [26, 26, 0, 0, 25, 25, 0, 0, 0, 0, 0, 0, 0, 0, 0, 0])) =
      Inr (no_detection\<lparr>totalBlocks := 4\<rparr>,
           small_detector\<lparr>prevFrame := Some [26, 26, 0, 0, 25, 25, 0, 0, 0, 0, 0, 0, 0, 0, 0, 0]\<rparr>)
   \<and> changedBlocks (no_detection\<lparr>totalBlocks := 4\<rparr>) = 0"
proof -
  have 1: "mean_abs_diff [26, 26, 0, 0, 25, 25, 0, 0, 0, 0, 0, 0, 0, 0, 0, 0]
      [0, 0, 0, 0, 0, 0, 0, 0, 0, 0, 0, 0, 0, 0, 0, 0] 2 4 0 0 = 51 / 2"
    by (simp add: mean_abs_diff_def block_sum_def lessThan2 pixel_index_def abs_diff_def)
  have 2: "real (unat (threshold (config small_detector))) < 51 / 2"
    by (simp add: small_detector_def small_config_def)
  have 3: "prevFrame small_detector = Some [0, 0, 0, 0, 0, 0, 0, 0, 0, 0, 0, 0, 0, 0, 0, 0]"
    by (simp add: small_detector_def)
  have 4: "detect small_detector (env_at 5000 True)
        (Some (gray_frame 4 4 [26, 26, 0, 0, 25, 25, 0, 0, 0, 0, 0, 0, 0, 0, 0, 0])) =
      Inr (no_detection\<lparr>totalBlocks := 4\<rparr>,
           small_detector\<lparr>prevFrame := Some [26, 26, 0, 0, 25, 25, 0, 0, 0, 0, 0, 0, 0, 0, 0, 0]\<rparr>)"
    by (simp add: gray_defs)
  have 5: "changedBlocks (no_detection\<lparr>totalBlocks := 4\<rparr>) = 0"
    by (simp add: no_detection_def)
  from 1 2 3 4 5 show ?thesis by blast
qed

text \<open>
  Claim C6. Whenever \<open>detect\<close> returns a result with \<open>changedBlocks > 0\<close>, the call was a
  block comparison, and with \<open>m\<close> the measured values of its scan (flagged detected, not
  filtered): if \<open>sizePercent < minSizePercent\<close> or \<open>sizePercent > maxSizePercent\<close>, the result
  is \<open>m\<close> with \<open>sizeFiltered = true\<close> and \<open>detected = false\<close>, every other field as
  measured; otherwise the result is \<open>m\<close> itself.
\<close>

theorem C6_size_filter:
  assumes "detect s env frame = Inr (r, s')" and "changedBlocks r \<noteq> 0"
  shows "\<exists>f b p sc. frame = Some f \<and> buf f = Some b \<and> format f = PIXFORMAT_GRAYSCALE
           \<and> prevFrame s = Some p
           \<and> scan_blocks (config s) b p (unat (width f)) (width f div blockSize (config s))
                 (height f div blockSize (config s)) = Inr sc
           \<and> detected (measured (config s) (width f) (height f) sc)
           \<and> \<not> sizeFiltered (measured (config s) (width f) (height f) sc)
           \<and> (if sizePercent r < minSizePercent (config s) \<or> sizePercent r > maxSizePercent (config s)
              then r = (measured (config s) (width f) (height f) sc)\<lparr>sizeFiltered := True, detected := False\<rparr>
              else r = measured (config s) (width f) (height f) sc)"
proof -
  from detect_changed_path [OF assms]
  obtain f b p where fr: "frame = Some f" "buf f = Some b" "format f = PIXFORMAT_GRAYSCALE"
      "prevFrame s = Some p" and c: "compare_frames s env f b p = Inr (r, s')"
    by blast
  from compare_frames_result [OF c] assms(2)
  obtain sc where sc: "scan_blocks (config s) b p (unat (width f)) (width f div blockSize (config s))
                 (height f div blockSize (config s)) = Inr sc"
    and r: "r = block_confidence (size_filter (config s)
                         (bounding_box (config s) (width f) (height f) sc
                            (no_detection\<lparr>totalBlocks := ucast (width f div blockSize (config s))
                                                             * ucast (height f div blockSize (config s)),
                                           changedBlocks := sc_changed sc\<rparr>)))"
    by auto
  let ?m = "measured (config s) (width f) (height f) sc"
  let ?out = "sizePercent ?m < minSizePercent (config s) \<or> sizePercent ?m > maxSizePercent (config s)"
  have r': "r = ?m\<lparr>sizeFiltered := ?out, detected := \<not> ?out\<rparr>"
    unfolding r filter_then_confidence measured_def confidence_keeps_size
    by (simp add: no_detection_def)
  then have sp: "sizePercent r = sizePercent ?m" by simp
  have fl: "detected ?m" "\<not> sizeFiltered ?m" using measured_flags by blast+
  have "if sizePercent r < minSizePercent (config s) \<or> sizePercent r > maxSizePercent (config s)
        then r = ?m\<lparr>sizeFiltered := True, detected := False\<rparr> else r = ?m"
  proof (cases ?out)
    case True
    with r' sp show ?thesis by simp
  next
    case False
    with r' have "r = ?m\<lparr>sizeFiltered := False, detected := True\<rparr>" by simp
    also have "\<dots> = ?m" using fl by simp
    finally show ?thesis using False sp by simp
  qed
  with fr sc fl show ?thesis by blast
qed

theorem C6_witness:
  "(detect small_detector (env_at 5000 True) (Some flood_frame) =
      Inr (\<lparr>detected = False, sizeFiltered = True, res_x = 0, res_y = 0, res_width = 4,
             res_height = 4, sizePercent = 100, changedBlocks = 4, totalBlocks = 4, confidence = 1\<rparr>,
           small_detector\<lparr>prevFrame := buf flood_frame\<rparr>)
    \<and> maxSizePercent (config small_detector) < 100
    \<and> (\<exists>f b p sc. Some flood_frame = Some f \<and> buf f = Some b \<and> format f = PIXFORMAT_GRAYSCALE
           \<and> prevFrame small_detector = Some p
           \<and> scan_blocks (config small_detector) b p (unat (width f))
                 (width f div blockSize (config small_detector))
                 (height f div blockSize (config small_detector)) = Inr sc
           \<and> detected (measured (config small_detector) (width f) (height f) sc)
           \<and> \<not> sizeFiltered (measured (config small_detector) (width f) (height f) sc)
           \<and> \<lparr>detected = False, sizeFiltered = True, res_x = 0, res_y = 0, res_width = 4,
                res_height = 4, sizePercent = 100, changedBlocks = 4, totalBlocks = 4, confidence = 1\<rparr>
               = (measured (config small_detector) (width f) (height f) sc)
                   \<lparr>sizeFiltered := True, detected := False\<rparr>))
   \<and> (detect small_detector (env_at 5000 True) (Some spot_frame) =
      Inr (\<lparr>detected = True, sizeFiltered = False, res_x = 0, res_y = 0, res_width = 2,
             res_height = 2, sizePercent = 25, changedBlocks = 1, totalBlocks = 4, confidence = 1\<rparr>,
           small_detector\<lparr>prevFrame := buf spot_frame, lastDetectionTime := 5001\<rparr>)
    \<and> minSizePercent (config small_detector) \<le> 25 \<and> 25 \<le> maxSizePercent (config small_detector)
    \<and> (\<exists>f b p sc. Some spot_frame = Some f \<and> buf f = Some b \<and> format f = PIXFORMAT_GRAYSCALE
           \<and> prevFrame small_detector = Some p
           \<and> scan_blocks (config small_detector) b p (unat (width f))
                 (width f div blockSize (config small_detector))
                 (height f div blockSize (config small_detector)) = Inr sc
           \<and> detected (measured (config small_detector) (width f) (height f) sc)
           \<and> \<not> sizeFiltered (measured (config small_detector) (width f) (height f) sc)
           \<and> \<lparr>detected = True, sizeFiltered = False, res_x = 0, res_y = 0, res_width = 2,
                res_height = 2, sizePercent = 25, changedBlocks = 1, totalBlocks = 4, confidence = 1\<rparr>
               = measured (config small_detector) (width f) (height f) sc))"
proof -
  let ?r = "\<lparr>detected = False, sizeFiltered = True, res_x = 0, res_y = 0, res_width = 4,
            res_height = 4, sizePercent = 100, changedBlocks = 4, totalBlocks = 4, confidence = 1\<rparr>"
  let ?q = "\<lparr>detected = True, sizeFiltered = False, res_x = 0, res_y = 0, res_width = 2,
            res_height = 2, sizePercent = 25, changedBlocks = 1, totalBlocks = 4, confidence = 1\<rparr>"
  have d: "detect small_detector (env_at 5000 True) (Some flood_frame) =
     Inr (?r, small_detector\<lparr>prevFrame := buf flood_frame\<rparr>)"
    by (simp add: gray_defs flood_frame_def)
  have c: "changedBlocks ?r \<noteq> 0" by simp
  have big: "maxSizePercent (config small_detector) < 100"
    by (simp add: small_detector_def small_config_def)
  then have out: "sizePercent ?r < minSizePercent (config small_detector)
      \<or> sizePercent ?r > maxSizePercent (config small_detector)"
    by simp
  from C6_size_filter [OF d c] out have A: "\<exists>f b p sc. Some flood_frame = Some f \<and> buf f = Some b
           \<and> format f = PIXFORMAT_GRAYSCALE \<and> prevFrame small_detector = Some p
           \<and> scan_blocks (config small_detector) b p (unat (width f))
                 (width f div blockSize (config small_detector))
                 (height f div blockSize (config small_detector)) = Inr sc
           \<and> detected (measured (config small_detector) (width f) (height f) sc)
           \<and> \<not> sizeFiltered (measured (config small_detector) (width f) (height f) sc)
           \<and> ?r = (measured (config small_detector) (width f) (height f) sc)
                   \<lparr>sizeFiltered := True, detected := False\<rparr>"
    by simp
  have d': "detect small_detector (env_at 5000 True) (Some spot_frame) =
     Inr (?q, small_detector\<lparr>prevFrame := buf spot_frame, lastDetectionTime := 5001\<rparr>)"
    by (simp add: gray_defs spot_frame_def)
  have c': "changedBlocks ?q \<noteq> 0" by simp
  have mid: "minSizePercent (config small_detector) \<le> 25" "25 \<le> maxSizePercent (config small_detector)"
    by (simp_all add: small_detector_def small_config_def)
  then have inside: "\<not> (sizePercent ?q < minSizePercent (config small_detector)
      \<or> sizePercent ?q > maxSizePercent (config small_detector))"
    by simp
  from C6_size_filter [OF d' c'] inside have B: "\<exists>f b p sc. Some spot_frame = Some f \<and> buf f = Some b
           \<and> format f = PIXFORMAT_GRAYSCALE \<and> prevFrame small_detector = Some p
           \<and> scan_blocks (config small_detector) b p (unat (width f))
                 (width f div blockSize (config small_detector))
                 (height f div blockSize (config small_detector)) = Inr sc
           \<and> detected (measured (config small_detector) (width f) (height f) sc)
           \<and> \<not> sizeFiltered (measured (config small_detector) (width f) (height f) sc)
           \<and> ?q = measured (config small_detector) (width f) (height f) sc"
    by simp
  from d big A d' mid B show ?thesis by blast
qed

text \<open>
  Claim C9, as the code has it. With \<open>blockSize = 256\<close> the 16-bit pixel count
  \<open>blockSize * blockSize\<close> is 0, and the comparison of a grayscale frame at least 256
  pixels wide and tall with a baseline of its dimensions ends in a division by zero. More
  generally a comparison of frames at least \<open>blockSize\<close> wide and tall divides by zero
  whenever \<open>blockSize\<close> is 0 or its 16-bit pixel count is 0, and no call of \<open>detect\<close>
  divides by zero when \<open>blockSize\<close> and its 16-bit pixel count are both non-zero. The
  precondition \<open>0 < blockSize\<close> and \<open>blockSize * blockSize < 65536\<close> implies the latter, so
  it is sufficient for the division to be defined; it is not necessary.
\<close>

theorem C9_division_by_zero:
  "(blockSize (config s) = 256 \<and> buf f = Some b \<and> len f \<noteq> 0 \<and> format f = PIXFORMAT_GRAYSCALE
      \<and> \<not> cooldown_active s env
      \<and> prevFrame s = Some p \<and> prevWidth s = width f \<and> prevHeight s = height f
      \<and> 256 \<le> unat (width f) \<and> 256 \<le> unat (height f)
      \<and> unat (width f) * unat (height f) \<le> length b
      \<and> unat (width f) * unat (height f) \<le> length p
    \<longrightarrow> blockSize (config s) * blockSize (config s) = 0
        \<and> detect s env (Some f) = Inl DivisionByZero)
   \<and> ((blockSize (config s) = 0 \<or> blockSize (config s) * blockSize (config s) = 0)
      \<and> buf f = Some b \<and> len f \<noteq> 0 \<and> format f = PIXFORMAT_GRAYSCALE
      \<and> \<not> cooldown_active s env
      \<and> prevFrame s = Some p \<and> prevWidth s = width f \<and> prevHeight s = height f
      \<and> unat (blockSize (config s)) \<le> unat (width f)
      \<and> unat (blockSize (config s)) \<le> unat (height f)
      \<and> unat (width f) * unat (height f) \<le> length b
      \<and> unat (width f) * unat (height f) \<le> length p
    \<longrightarrow> detect s env (Some f) = Inl DivisionByZero)
   \<and> (blockSize (config s') \<noteq> 0 \<and> blockSize (config s') * blockSize (config s') \<noteq> 0
    \<longrightarrow> detect s' env' frame \<noteq> Inl DivisionByZero)
   \<and> (0 < unat (blockSize (config s'))
      \<and> unat (blockSize (config s')) * unat (blockSize (config s')) < 65536
    \<longrightarrow> blockSize (config s') \<noteq> 0 \<and> blockSize (config s') * blockSize (config s') \<noteq> 0
        \<and> detect s' env' frame \<noteq> Inl DivisionByZero)"
proof (intro conjI impI)
  assume a: "blockSize (config s) = 256 \<and> buf f = Some b \<and> len f \<noteq> 0 \<and> format f = PIXFORMAT_GRAYSCALE
      \<and> \<not> cooldown_active s env
      \<and> prevFrame s = Some p \<and> prevWidth s = width f \<and> prevHeight s = height f
      \<and> 256 \<le> unat (width f) \<and> 256 \<le> unat (height f)
      \<and> unat (width f) * unat (height f) \<le> length b
      \<and> unat (width f) * unat (height f) \<le> length p"
  then show "blockSize (config s) * blockSize (config s) = 0" by simp
  from a show "detect s env (Some f) = Inl DivisionByZero"
    using detect_256 [of s f b env p] by blast
next
  assume "(blockSize (config s) = 0 \<or> blockSize (config s) * blockSize (config s) = 0)
      \<and> buf f = Some b \<and> len f \<noteq> 0 \<and> format f = PIXFORMAT_GRAYSCALE
      \<and> \<not> cooldown_active s env
      \<and> prevFrame s = Some p \<and> prevWidth s = width f \<and> prevHeight s = height f
      \<and> unat (blockSize (config s)) \<le> unat (width f)
      \<and> unat (blockSize (config s)) \<le> unat (height f)
      \<and> unat (width f) * unat (height f) \<le> length b
      \<and> unat (width f) * unat (height f) \<le> length p"
  then show "detect s env (Some f) = Inl DivisionByZero"
    using detect_wrap [of s f b env p] by blast
next
  assume "blockSize (config s') \<noteq> 0 \<and> blockSize (config s') * blockSize (config s') \<noteq> 0"
  then show "detect s' env' frame \<noteq> Inl DivisionByZero"
    using detect_error [of s' env' frame] by blast
next
  assume c: "0 < unat (blockSize (config s'))
      \<and> unat (blockSize (config s')) * unat (blockSize (config s')) < 65536"
  then have n: "blockSize (config s') \<noteq> 0 \<and> blockSize (config s') * blockSize (config s') \<noteq> 0"
    by (intro block_size_safe) simp_all
  from n show "blockSize (config s') \<noteq> 0" by simp
  from n show "blockSize (config s') * blockSize (config s') \<noteq> 0" by simp
  from n show "detect s' env' frame \<noteq> Inl DivisionByZero"
    using detect_error [of s' env' frame] by blast
qed

theorem C9_witness:
  "(blockSize (config wide_detector) = 256
    \<and> buf (gray_frame 256 256 (replicate 65536 0)) = Some (replicate 65536 0)
    \<and> len (gray_frame 256 256 (replicate 65536 0)) \<noteq> 0
    \<and> format (gray_frame 256 256 (replicate 65536 0)) = PIXFORMAT_GRAYSCALE
    \<and> \<not> cooldown_active wide_detector (env_at 5000 True)
    \<and> prevFrame wide_detector = Some (replicate 65536 0)
    \<and> blockSize (config wide_detector) * blockSize (config wide_detector) = 0
    \<and> detect wide_detector (env_at 5000 True) (Some (gray_frame 256 256 (replicate 65536 0)))
        = Inl DivisionByZero)
   \<and> (blockSize (config stuck_detector) = 0
    \<and> \<not> cooldown_active stuck_detector (env_at 5000 True)
    \<and> prevFrame stuck_detector = buf gray_zero
    \<and> detect stuck_detector (env_at 5000 True) (Some gray_zero) = Inl DivisionByZero)
   \<and> (blockSize (config odd_detector) \<noteq> 0
    \<and> blockSize (config odd_detector) * blockSize (config odd_detector) \<noteq> 0
    \<and> detect odd_detector (env_at 5000 True) (Some spot_frame) \<noteq> Inl DivisionByZero)
   \<and> (0 < unat (blockSize (config small_detector))
    \<and> unat (blockSize (config small_detector)) * unat (blockSize (config small_detector)) < 65536
    \<and> blockSize (config small_detector) \<noteq> 0
    \<and> blockSize (config small_detector) * blockSize (config small_detector) \<noteq> 0
    \<and> detect small_detector (env_at 5000 True) (Some spot_frame) \<noteq> Inl DivisionByZero)"
proof -
  let ?f = "gray_frame 256 256 (replicate 65536 0)"
  let ?z = "replicate 65536 0 :: u8 list"
  let ?q = "[0, 0, 0, 0, 0, 0, 0, 0, 0, 0, 0, 0, 0, 0, 0, 0] :: u8 list"
  have a: "blockSize (config wide_detector) = 256 \<and> buf ?f = Some ?z \<and> len ?f \<noteq> 0
      \<and> format ?f = PIXFORMAT_GRAYSCALE \<and> \<not> cooldown_active wide_detector (env_at 5000 True)
      \<and> prevFrame wide_detector = Some ?z \<and> prevWidth wide_detector = width ?f
      \<and> prevHeight wide_detector = height ?f
      \<and> 256 \<le> unat (width ?f) \<and> 256 \<le> unat (height ?f)
      \<and> unat (width ?f) * unat (height ?f) \<le> length ?z
      \<and> unat (width ?f) * unat (height ?f) \<le> length ?z"
    by (simp add: wide_detector_def gray_frame_def cooldown_active_def env_at_def MotionDetector_new_def)
  have b: "(blockSize (config stuck_detector) = 0
        \<or> blockSize (config stuck_detector) * blockSize (config stuck_detector) = 0)
      \<and> buf gray_zero = Some ?q \<and> len gray_zero \<noteq> 0 \<and> format gray_zero = PIXFORMAT_GRAYSCALE
      \<and> \<not> cooldown_active stuck_detector (env_at 5000 True)
      \<and> prevFrame stuck_detector = Some ?q \<and> prevWidth stuck_detector = width gray_zero
      \<and> prevHeight stuck_detector = height gray_zero
      \<and> unat (blockSize (config stuck_detector)) \<le> unat (width gray_zero)
      \<and> unat (blockSize (config stuck_detector)) \<le> unat (height gray_zero)
      \<and> unat (width gray_zero) * unat (height gray_zero) \<le> length ?q
      \<and> unat (width gray_zero) * unat (height gray_zero) \<le> length ?q"
    by (simp add: stuck_detector_def gray_zero_def gray_frame_def cooldown_active_def env_at_def
        MotionDetector_new_def)
  have c: "blockSize (config odd_detector) \<noteq> 0
      \<and> blockSize (config odd_detector) * blockSize (config odd_detector) \<noteq> 0"
    by (simp add: odd_detector_def)
  have d: "0 < unat (blockSize (config small_detector))
      \<and> unat (blockSize (config small_detector)) * unat (blockSize (config small_detector)) < 65536"
    by (simp add: small_detector_def small_config_def)
  note r1 = C9_division_by_zero [of wide_detector ?f ?z "env_at 5000 True" ?z small_detector
      "env_at 5000 True" "Some spot_frame"]
  note r2 = C9_division_by_zero [of stuck_detector gray_zero ?q "env_at 5000 True" ?q odd_detector
      "env_at 5000 True" "Some spot_frame"]
  from r1 a have 1: "blockSize (config wide_detector) * blockSize (config wide_detector) = 0
      \<and> detect wide_detector (env_at 5000 True) (Some ?f) = Inl DivisionByZero"
    by blast
  from r2 b have 2: "detect stuck_detector (env_at 5000 True) (Some gray_zero) = Inl DivisionByZero"
    by blast
  from r2 c have 3: "detect odd_detector (env_at 5000 True) (Some spot_frame) \<noteq> Inl DivisionByZero"
    by blast
  from r1 d have 4: "blockSize (config small_detector) \<noteq> 0
      \<and> blockSize (config small_detector) * blockSize (config small_detector) \<noteq> 0
      \<and> detect small_detector (env_at 5000 True) (Some spot_frame) \<noteq> Inl DivisionByZero"
    by blast
  have e: "blockSize (config stuck_detector) = 0" "prevFrame stuck_detector = buf gray_zero"
    by (simp_all add: stuck_detector_def gray_zero_def gray_frame_def)
  from a b c d e 1 2 3 4 show ?thesis by blast
qed

text \<open>
  Claim C9 as stated fails in its last part, that the division is defined only under
  \<open>blockSize * blockSize < 65536\<close>: with \<open>blockSize = 257\<close> the product is 66049, the
  16-bit pixel count is 513, and the comparison of a 257 by 257 frame of zeros with its
  baseline divides 0 by 513 and returns a result.
\<close>

theorem C9_counterexample:
  "blockSize (config odd_detector) = 257
   \<and> \<not> unat (blockSize (config odd_detector)) * unat (blockSize (config odd_detector)) < 65536
   \<and> blockSize (config odd_detector) * blockSize (config odd_detector) = 513
   \<and> prevFrame odd_detector = Some (replicate 66049 0)
   \<and> \<not> cooldown_active odd_detector (env_at 5000 True)
   \<and> detect odd_detector (env_at 5000 True) (Some (gray_frame 257 257 (replicate 66049 0))) =
       Inr (no_detection\<lparr>totalBlocks := 1\<rparr>, odd_detector)"
proof -
  have 1: "blockSize (config odd_detector) = 257" by (simp add: odd_detector_def)
  have 2: "\<not> unat (blockSize (config odd_detector)) * unat (blockSize (config odd_detector)) < 65536"
    by (simp add: odd_detector_def)
  have 3: "blockSize (config odd_detector) * blockSize (config odd_detector) = 513"
    by (simp add: odd_detector_def)
  have 4: "prevFrame odd_detector = Some (replicate 66049 0)" by (simp add: odd_detector_def)
  have 5: "\<not> cooldown_active odd_detector (env_at 5000 True)"
    by (simp add: cooldown_active_def odd_detector_def MotionDetector_new_def env_at_def)
  from 1 2 3 4 5 detect_odd show ?thesis by blast
qed

end
